theory Spec2Isabelle
  imports Complex_Main
begin

section \<open>Floating-point arithmetic\<close>

text \<open>
  Source: \<^verbatim>\<open>benchmarkTool/randomTests/nanoflann_testRandom.cpp\<close>.

  The coordinates are \<^verbatim>\<open>float\<close>s (\<^verbatim>\<open>PointCloud<T>\<close> is used at \<^verbatim>\<open>T = float\<close>) and the timers are
  \<^verbatim>\<open>double\<close>s. Both are modelled as IEEE 754 binary formats with rounding to nearest, ties
  to even, applied after every operation: a value is a real number of the format, an
  infinity or a NaN; an operation computes the exact result and rounds it, and a result
  too large for the format is an infinity. A format is given by its precision \<open>p\<close>, the
  exponent of the unit of its smallest subnormal number, and the exponent of the first power
  of two it cannot hold. The sign of a zero is not modelled: the only divisions by zero in
  the program have a divisor converted from an unsigned integer, which is \<open>+0\<close>.
  \<^verbatim>\<open>size_t\<close> is \<^typ>\<open>nat\<close>, \<^verbatim>\<open>int\<close> and \<^verbatim>\<open>clock_t\<close> are \<^typ>\<open>int\<close> (no operation of the file
  can overflow them on the inputs considered here).
\<close>

record format =
  precision :: nat
  min_exp :: int
  max_exp :: int

definition binary32 :: format where
  "binary32 = \<lparr>precision = 24, min_exp = - 149, max_exp = 128\<rparr>"

definition binary64 :: format where
  "binary64 = \<lparr>precision = 53, min_exp = - 1074, max_exp = 1024\<rparr>"

definition valid_format :: "format \<Rightarrow> bool" where
  "valid_format fmt \<longleftrightarrow> 0 < precision fmt \<and> min_exp fmt + int (precision fmt) \<le> max_exp fmt"

datatype ieee = Finite real | PInf | NInf | NaN

type_synonym float = ieee

type_synonym double = ieee

text \<open>
  Rounding a real to the nearest integer, ties to even; the exponent \<open>q\<close> of the unit in
  the last place of a real \<open>v\<close> (the least \<open>q\<close> from the smallest one on with
  \<open>\<bar>v\<bar> < 2 powi (q + p)\<close>, found by counting up); and the rounding of \<open>v\<close> to the format: the
  multiple of \<open>2 powi q\<close> nearest to \<open>v\<close>, or an infinity.
\<close>

definition rne :: "real \<Rightarrow> int" where
  "rne a =
     (let n = \<lfloor>a\<rfloor>; f = a - of_int n
      in if f < 1 / 2 then n else if 1 / 2 < f then n + 1 else if even n then n else n + 1)"

fun ulp_exp_from :: "nat \<Rightarrow> nat \<Rightarrow> int \<Rightarrow> real \<Rightarrow> int" where
  "ulp_exp_from 0 p q a = q"
| "ulp_exp_from (Suc n) p q a =
     (if a < 2 powi (q + int p) then q else ulp_exp_from n p (q + 1) a)"

definition ulp_exp :: "format \<Rightarrow> real \<Rightarrow> int" where
  "ulp_exp fmt v =
     ulp_exp_from (nat (max_exp fmt - int (precision fmt) - min_exp fmt)) (precision fmt)
       (min_exp fmt) \<bar>v\<bar>"

definition rval :: "format \<Rightarrow> real \<Rightarrow> real" where
  "rval fmt v = of_int (rne (v / 2 powi ulp_exp fmt v)) * 2 powi ulp_exp fmt v"

definition overflow :: "real \<Rightarrow> ieee" where
  "overflow v = (if 0 < v then PInf else NInf)"

definition fround :: "format \<Rightarrow> real \<Rightarrow> ieee" where
  "fround fmt v =
     (if 2 powi max_exp fmt \<le> \<bar>v\<bar> then overflow v
      else
        (let q = ulp_exp fmt v;
             r = of_int (rne (v / 2 powi q)) * 2 powi q
         in if 2 powi max_exp fmt \<le> \<bar>r\<bar> then overflow r else Finite r))"

text \<open>A real is a number of the format when rounding leaves it unchanged.\<close>

definition representable :: "format \<Rightarrow> real \<Rightarrow> bool" where
  "representable fmt v \<longleftrightarrow> fround fmt v = Finite v"

fun fp_add :: "format \<Rightarrow> ieee \<Rightarrow> ieee \<Rightarrow> ieee" where
  "fp_add fmt (Finite a) (Finite b) = fround fmt (a + b)"
| "fp_add fmt NaN _ = NaN"
| "fp_add fmt _ NaN = NaN"
| "fp_add fmt PInf NInf = NaN"
| "fp_add fmt NInf PInf = NaN"
| "fp_add fmt PInf _ = PInf"
| "fp_add fmt _ PInf = PInf"
| "fp_add fmt NInf _ = NInf"
| "fp_add fmt _ NInf = NInf"

fun fp_neg :: "ieee \<Rightarrow> ieee" where
  "fp_neg (Finite a) = Finite (- a)"
| "fp_neg PInf = NInf"
| "fp_neg NInf = PInf"
| "fp_neg NaN = NaN"

definition fp_sub :: "format \<Rightarrow> ieee \<Rightarrow> ieee \<Rightarrow> ieee" where
  "fp_sub fmt a b = fp_add fmt a (fp_neg b)"

fun fp_mul :: "format \<Rightarrow> ieee \<Rightarrow> ieee \<Rightarrow> ieee" where
  "fp_mul fmt (Finite a) (Finite b) = fround fmt (a * b)"
| "fp_mul fmt NaN _ = NaN"
| "fp_mul fmt _ NaN = NaN"
| "fp_mul fmt (Finite a) PInf = (if a = 0 then NaN else if 0 < a then PInf else NInf)"
| "fp_mul fmt (Finite a) NInf = (if a = 0 then NaN else if 0 < a then NInf else PInf)"
| "fp_mul fmt PInf (Finite b) = (if b = 0 then NaN else if 0 < b then PInf else NInf)"
| "fp_mul fmt NInf (Finite b) = (if b = 0 then NaN else if 0 < b then NInf else PInf)"
| "fp_mul fmt PInf PInf = PInf"
| "fp_mul fmt NInf NInf = PInf"
| "fp_mul fmt PInf NInf = NInf"
| "fp_mul fmt NInf PInf = NInf"

fun fp_div :: "format \<Rightarrow> ieee \<Rightarrow> ieee \<Rightarrow> ieee" where
  "fp_div fmt (Finite a) (Finite b) =
     (if b \<noteq> 0 then fround fmt (a / b)
      else if a = 0 then NaN
      else if 0 < a then PInf else NInf)"
| "fp_div fmt NaN _ = NaN"
| "fp_div fmt _ NaN = NaN"
| "fp_div fmt (Finite a) _ = Finite 0"
| "fp_div fmt PInf (Finite b) = (if 0 \<le> b then PInf else NInf)"
| "fp_div fmt NInf (Finite b) = (if 0 \<le> b then NInf else PInf)"
| "fp_div fmt _ _ = NaN"

text \<open>The arithmetic of \<^verbatim>\<open>float\<close> and the conversions to it.\<close>

definition fadd :: "float \<Rightarrow> float \<Rightarrow> float" where
  "fadd = fp_add binary32"

definition fsub :: "float \<Rightarrow> float \<Rightarrow> float" where
  "fsub = fp_sub binary32"

definition fmul :: "float \<Rightarrow> float \<Rightarrow> float" where
  "fmul = fp_mul binary32"

definition fdiv :: "float \<Rightarrow> float \<Rightarrow> float" where
  "fdiv = fp_div binary32"

definition float_of_int :: "int \<Rightarrow> float" where
  "float_of_int k = fround binary32 (of_int k)"

definition float_of_nat :: "nat \<Rightarrow> float" where
  "float_of_nat n = fround binary32 (of_nat n)"

text \<open>The arithmetic of \<^verbatim>\<open>double\<close> that the timers use, and the conversions to it.\<close>

definition dadd :: "double \<Rightarrow> double \<Rightarrow> double" where
  "dadd = fp_add binary64"

definition ddiv :: "double \<Rightarrow> double \<Rightarrow> double" where
  "ddiv = fp_div binary64"

definition double_of_int :: "int \<Rightarrow> double" where
  "double_of_int k = fround binary64 (of_int k)"

definition double_of_size :: "nat \<Rightarrow> double" where
  "double_of_size n = fround binary64 (of_nat n)"

section \<open>The data set class of the random benchmark\<close>

record Point =
  x :: float
  y :: float
  z :: float

record PointCloud =
  pts :: "Point list"

definition kdtree_get_point_count :: "PointCloud \<Rightarrow> nat" where
  "kdtree_get_point_count pc = length (pts pc)"

text \<open>
  \<^verbatim>\<open>pts[idx]\<close> on a \<^verbatim>\<open>std::vector\<close> and \<^verbatim>\<open>p1[k]\<close> on a raw array are unchecked: an index
  outside the storage is undefined behaviour. The model returns \<open>None\<close> there.
  The query array \<^verbatim>\<open>p1\<close> is a list; the unused \<^verbatim>\<open>size\<close> argument is kept (as \<open>sz\<close>).
\<close>

definition kdtree_distance :: "PointCloud \<Rightarrow> float list \<Rightarrow> nat \<Rightarrow> nat \<Rightarrow> float option" where
  "kdtree_distance pc p1 idx_p2 sz =
     (if idx_p2 < length (pts pc) \<and> 3 \<le> length p1 then
        (let d0 = fsub (p1 ! 0) (x (pts pc ! idx_p2));
             d1 = fsub (p1 ! 1) (y (pts pc ! idx_p2));
             d2 = fsub (p1 ! 2) (z (pts pc ! idx_p2))
         in Some (fadd (fadd (fmul d0 d0) (fmul d1 d1)) (fmul d2 d2)))
      else None)"

definition kdtree_get_pt :: "PointCloud \<Rightarrow> nat \<Rightarrow> int \<Rightarrow> float option" where
  "kdtree_get_pt pc idx dm =
     (if idx < length (pts pc) then
        Some (if dm = 0 then x (pts pc ! idx)
              else if dm = 1 then y (pts pc ! idx)
              else z (pts pc ! idx))
      else None)"

definition kdtree_get_bbox :: "PointCloud \<Rightarrow> 'bbox \<Rightarrow> bool" where
  "kdtree_get_bbox pc bb = False"

text \<open>
  The specification's words for the metric, over the reals: the sum, over the three axes,
  of the squared difference between the query's component and the stored point's
  coordinate on that axis.
\<close>

definition squared_euclidean_spec :: "real list \<Rightarrow> real list \<Rightarrow> real" where
  "squared_euclidean_spec q p = (\<Sum>k \<leftarrow> [0..<3]. (q ! k - p ! k)\<^sup>2)"

section \<open>Environment and program state\<close>

text \<open>
  What the program reads from outside is an explicit environment: the values that
  successive calls of \<^verbatim>\<open>rand()\<close> return (a value in \<open>0..RAND_MAX\<close>, hence a \<^typ>\<open>nat\<close>;
  the sequence is fixed by the seed given to \<^verbatim>\<open>srand\<close>), the values that successive calls
  of \<^verbatim>\<open>clock()\<close> return, the constant \<^verbatim>\<open>CLOCKS_PER_SEC\<close> of the platform, and the text
  that \<^verbatim>\<open>operator<<\<close> writes for a \<^verbatim>\<open>double\<close>.

  What the program changes is an explicit state: how many values of each sequence have
  been consumed, the calls made so far (random draws, clock reads and the calls into the
  index library), and the standard output.
\<close>

record env =
  rand_values :: "nat \<Rightarrow> nat"
  clock_values :: "nat \<Rightarrow> int"
  CLOCKS_PER_SEC :: int
  show_double :: "double \<Rightarrow> string"

datatype event =
    CallRand
  | CallClock
  | NewIndex nat PointCloud nat
  | BuildIndex
  | FindNeighbors "float list" nat nat

record world =
  rand_calls :: nat
  clock_calls :: nat
  events :: "event list"
  cout :: string

definition rand :: "env \<Rightarrow> world \<Rightarrow> nat \<times> world" where
  "rand e w =
     (rand_values e (rand_calls w),
      w\<lparr>rand_calls := rand_calls w + 1, events := events w @ [CallRand]\<rparr>)"

definition clock :: "env \<Rightarrow> world \<Rightarrow> int \<times> world" where
  "clock e w =
     (clock_values e (clock_calls w),
      w\<lparr>clock_calls := clock_calls w + 1, events := events w @ [CallClock]\<rparr>)"

section \<open>The point cloud generator\<close>

text \<open>
  \<^verbatim>\<open>for (size_t i=0;i<N;i++) body\<close>, whose body changes neither \<open>i\<close> nor \<open>N\<close>, is
  \<open>fold body [0..<N]\<close>. \<^verbatim>\<open>resize(N)\<close> on the fresh vector value-initialises \<open>N\<close> points.
\<close>

definition generate_point :: "env \<Rightarrow> float \<Rightarrow> nat \<Rightarrow> PointCloud \<times> world \<Rightarrow> PointCloud \<times> world" where
  "generate_point e max_range i = (\<lambda>(point, w).
     let (r0, w0) = rand e w;
         point0 = point\<lparr>pts := (pts point)[i := (pts point ! i)
                    \<lparr>x := fdiv (fmul max_range (float_of_nat (r0 mod 1000))) (float_of_int 1000)\<rparr>]\<rparr>;
         (r1, w1) = rand e w0;
         point1 = point0\<lparr>pts := (pts point0)[i := (pts point0 ! i)
                    \<lparr>y := fdiv (fmul max_range (float_of_nat (r1 mod 1000))) (float_of_int 1000)\<rparr>]\<rparr>;
         (r2, w2) = rand e w1;
         point2 = point1\<lparr>pts := (pts point1)[i := (pts point1 ! i)
                    \<lparr>z := fdiv (fmul max_range (float_of_nat (r2 mod 1000))) (float_of_int 1000)\<rparr>]\<rparr>
     in (point2, w2))"

definition generateRandomPointCloud :: "env \<Rightarrow> nat \<Rightarrow> float \<Rightarrow> world \<Rightarrow> PointCloud \<times> world" where
  "generateRandomPointCloud e N max_range w =
     fold (generate_point e max_range) [0..<N]
       (\<lparr>pts = replicate N \<lparr>x = Finite 0, y = Finite 0, z = Finite 0\<rparr>\<rparr>, w)"

text \<open>
  The outcome of a call as its caller sees it. The body has no argument check and no
  \<^verbatim>\<open>throw\<close>: every call returns its cloud (memory is taken to be unbounded).
\<close>

datatype failure = InvalidArgument

definition generate_outcome :: "env \<Rightarrow> nat \<Rightarrow> float \<Rightarrow> world \<Rightarrow> failure + PointCloud \<times> world" where
  "generate_outcome e N max_range w = Inr (generateRandomPointCloud e N max_range w)"

section \<open>One repetition\<close>

text \<open>
  Modelled from the spec: the index library \<^verbatim>\<open>nanoflann.hpp\<close> (\<^verbatim>\<open>KDTreeSingleIndexAdaptor\<close>,
  \<^verbatim>\<open>KNNResultSet\<close>) is not among the sources. The specification takes it as an external
  collaborator whose build and whose nearest-neighbour query return for every cloud and
  every point; the harness never reads what they return. So each call is recorded with
  its arguments (dimension, cloud and maximal leaf size for the constructor; query point,
  number of results and search parameter for a search) and returns.
\<close>

definition KDTreeSingleIndexAdaptor :: "nat \<Rightarrow> PointCloud \<Rightarrow> nat \<Rightarrow> world \<Rightarrow> world" where
  "KDTreeSingleIndexAdaptor dimensionality cloud leaf_max_size w =
     w\<lparr>events := events w @ [NewIndex dimensionality cloud leaf_max_size]\<rparr>"

definition buildIndex :: "world \<Rightarrow> world" where
  "buildIndex w = w\<lparr>events := events w @ [BuildIndex]\<rparr>"

definition findNeighbors :: "float list \<Rightarrow> nat \<Rightarrow> nat \<Rightarrow> world \<Rightarrow> world" where
  "findNeighbors query_pt num_results checks w =
     w\<lparr>events := events w @ [FindNeighbors query_pt num_results checks]\<rparr>"

definition query_step :: "env \<Rightarrow> PointCloud \<Rightarrow> nat \<Rightarrow> double \<times> world \<Rightarrow> double \<times> world" where
  "query_step e cloudT i = (\<lambda>(elapsed_secs, w).
     let query_pt = [x (pts cloudT ! i), y (pts cloudT ! i), z (pts cloudT ! i)];
         num_results = 1;
         (t_begin, w1) = clock e w;
         w2 = findNeighbors query_pt num_results 10 w1;
         (t_end, w3) = clock e w2
     in (dadd elapsed_secs (double_of_int (t_end - t_begin)), w3))"

definition kdtree_demo :: "env \<Rightarrow> nat \<Rightarrow> (double \<times> double) \<times> world \<Rightarrow> (double \<times> double) \<times> world" where
  "kdtree_demo e N = (\<lambda>((buildTimer, queryTimer), w).
     let (cloudS, w1) = generateRandomPointCloud e N (float_of_int 10) w;
         (cloudT, w2) = generateRandomPointCloud e N (float_of_int 10) w1;
         (t_begin, w3) = clock e w2;
         w4 = buildIndex (KDTreeSingleIndexAdaptor 3 cloudS 10 w3);
         (t_end, w5) = clock e w4;
         buildTimer1 = dadd buildTimer
            (ddiv (double_of_int (t_end - t_begin)) (double_of_int (CLOCKS_PER_SEC e)));
         (elapsed_secs, w6) = fold (query_step e cloudT) [0..<N] (Finite 0, w5);
         elapsed_secs1 = ddiv elapsed_secs (double_of_int (CLOCKS_PER_SEC e));
         queryTimer1 = dadd queryTimer (ddiv elapsed_secs1 (double_of_size N))
     in ((buildTimer1, queryTimer1), w6))"

section \<open>The sweep over the sizes and the report\<close>

text \<open>
  \<open>main\<close> fixes the sizes and the repetition counts as local arrays. Its body is modelled
  for any \<open>plotCount\<close>, \<open>Ns\<close> and \<open>nReps\<close> (\<open>main_with\<close>); \<open>main\<close> is the instance at the
  constants of the source.
\<close>

definition size_step ::
  "env \<Rightarrow> nat list \<Rightarrow> nat list \<Rightarrow> nat \<Rightarrow> (double list \<times> double list) \<times> world
     \<Rightarrow> (double list \<times> double list) \<times> world" where
  "size_step e Ns nReps i = (\<lambda>((buildTime, queryTime), w).
     let ((buildTimer, queryTimer), w1) =
            fold (\<lambda>repets. kdtree_demo e (Ns ! i)) [0..<nReps ! i] ((Finite 0, Finite 0), w);
         buildTimer1 = ddiv buildTimer (double_of_size (nReps ! i));
         queryTimer1 = ddiv queryTimer (double_of_size (nReps ! i))
     in ((buildTime @ [buildTimer1], queryTime @ [queryTimer1]), w1))"

definition measure_sizes ::
  "env \<Rightarrow> nat \<Rightarrow> nat list \<Rightarrow> nat list \<Rightarrow> world \<Rightarrow> (double list \<times> double list) \<times> world" where
  "measure_sizes e plotCount Ns nReps w =
     fold (size_step e Ns nReps) [0..<plotCount] (([], []), w)"

definition print_values :: "env \<Rightarrow> double list \<Rightarrow> world \<Rightarrow> world" where
  "print_values e vs w =
     fold (\<lambda>i w. w\<lparr>cout := cout w @ show_double e (vs ! i) @ '' ''\<rparr>) [0..<length vs] w"

definition print_newline :: "world \<Rightarrow> world" where
  "print_newline w = w\<lparr>cout := cout w @ [CHR 0x0A]\<rparr>"

definition report :: "env \<Rightarrow> double list \<Rightarrow> double list \<Rightarrow> world \<Rightarrow> world" where
  "report e buildTime queryTime w =
     print_newline (print_values e queryTime (print_newline (print_values e buildTime w)))"

definition main_with :: "env \<Rightarrow> nat \<Rightarrow> nat list \<Rightarrow> nat list \<Rightarrow> world \<Rightarrow> int \<times> world" where
  "main_with e plotCount Ns nReps w =
     (let ((buildTime, queryTime), w1) = measure_sizes e plotCount Ns nReps w;
          w2 = report e buildTime queryTime w1
      in (0, w2))"

definition main_Ns :: "nat list" where
  "main_Ns = [1000, 5000, 10000, 50000, 100000, 200000, 500000, 700000, 1000000, 2000000]"

definition main_nReps :: "nat list" where
  "main_nReps = [1, 1, 1, 1, 1, 1, 1, 1, 1, 1]"

definition main :: "env \<Rightarrow> world \<Rightarrow> int \<times> world" where
  "main e w = main_with e 10 main_Ns main_nReps w"

definition initial_world :: world where
  "initial_world = \<lparr>rand_calls = 0, clock_calls = 0, events = [], cout = []\<rparr>"

section \<open>Closed forms used in the statements\<close>

subsection \<open>The generated points\<close>

text \<open>
  The point made from the three draws number \<open>k\<close>, \<open>k + 1\<close> and \<open>k + 2\<close>, and the cloud of
  \<open>N\<close> such points made from the \<open>3 * N\<close> draws that start at draw number \<open>k\<close>.
\<close>

definition random_point :: "env \<Rightarrow> float \<Rightarrow> nat \<Rightarrow> Point" where
  "random_point e max_range k =
     \<lparr>x = fdiv (fmul max_range (float_of_nat (rand_values e k mod 1000))) (float_of_int 1000),
      y = fdiv (fmul max_range (float_of_nat (rand_values e (k + 1) mod 1000))) (float_of_int 1000),
      z = fdiv (fmul max_range (float_of_nat (rand_values e (k + 2) mod 1000))) (float_of_int 1000)\<rparr>"

definition cloud_at :: "env \<Rightarrow> float \<Rightarrow> nat \<Rightarrow> nat \<Rightarrow> PointCloud" where
  "cloud_at e max_range k N = \<lparr>pts = map (\<lambda>i. random_point e max_range (k + 3 * i)) [0..<N]\<rparr>"

definition coordinates :: "Point \<Rightarrow> float list" where
  "coordinates p = [x p, y p, z p]"

subsection \<open>The calls of one repetition\<close>

definition query_events :: "PointCloud \<Rightarrow> nat \<Rightarrow> event list" where
  "query_events cloudT N =
     concat (map (\<lambda>i. [CallClock,
                          FindNeighbors [x (pts cloudT ! i), y (pts cloudT ! i), z (pts cloudT ! i)] 1 10,
                          CallClock]) [0..<N])"

definition is_query :: "event \<Rightarrow> bool" where
  "is_query ev = (case ev of FindNeighbors query_pt num_results checks \<Rightarrow> True | _ \<Rightarrow> False)"

subsection \<open>The measured intervals\<close>

text \<open>
  A repetition at size \<open>N\<close> reads the clock \<open>2 + 2 * N\<close> times: twice around the build,
  twice around each search. For a repetition that starts when the clock has been read
  \<open>c\<close> times, \<open>build_interval e c\<close> is its build interval in seconds, \<open>query_interval e (c + 2) j\<close>
  the interval of its \<open>j\<close>-th search in ticks, and \<open>amortized_query_time e c N\<close> its amortized
  query time: the sum of the search intervals, in seconds, divided by \<open>N\<close>. The sum of
  timer values is the left-to-right sum from 0 that \<^verbatim>\<open>+=\<close> computes.

  \<open>rep_start c N r\<close> is the number of clock reads before repetition \<open>r\<close> of a size whose
  first repetition starts at \<open>c\<close>; \<open>size_start Ns nReps c i\<close> is the number of clock reads
  before the first repetition of size index \<open>i\<close>, and \<open>draws_before Ns nReps i\<close> the number
  of random draws made for the sizes before it.
\<close>

definition dsum :: "double list \<Rightarrow> double" where
  "dsum vs = foldl dadd (Finite 0) vs"

definition build_interval :: "env \<Rightarrow> nat \<Rightarrow> double" where
  "build_interval e c =
     ddiv (double_of_int (clock_values e (c + 1) - clock_values e c))
          (double_of_int (CLOCKS_PER_SEC e))"

definition query_interval :: "env \<Rightarrow> nat \<Rightarrow> nat \<Rightarrow> double" where
  "query_interval e q j =
     double_of_int (clock_values e (q + 2 * j + 1) - clock_values e (q + 2 * j))"

definition amortized_query_time :: "env \<Rightarrow> nat \<Rightarrow> nat \<Rightarrow> double" where
  "amortized_query_time e c N =
     ddiv (ddiv (dsum (map (query_interval e (c + 2)) [0..<N])) (double_of_int (CLOCKS_PER_SEC e)))
          (double_of_size N)"

definition rep_start :: "nat \<Rightarrow> nat \<Rightarrow> nat \<Rightarrow> nat" where
  "rep_start c N r = c + r * (2 + 2 * N)"

definition size_start :: "nat list \<Rightarrow> nat list \<Rightarrow> nat \<Rightarrow> nat \<Rightarrow> nat" where
  "size_start Ns nReps c i = c + (\<Sum>j \<leftarrow> [0..<i]. nReps ! j * (2 + 2 * Ns ! j))"

definition draws_before :: "nat list \<Rightarrow> nat list \<Rightarrow> nat \<Rightarrow> nat" where
  "draws_before Ns nReps i = (\<Sum>j \<leftarrow> [0..<i]. nReps ! j * (6 * Ns ! j))"

text \<open>
  The averages over the \<open>R\<close> repetitions of a size, in the specification's words: the sum
  of the per-repetition values divided by the repetition count.
\<close>

definition build_time :: "env \<Rightarrow> nat \<Rightarrow> nat \<Rightarrow> nat \<Rightarrow> double" where
  "build_time e c N R =
     ddiv (dsum (map (\<lambda>r. build_interval e (rep_start c N r)) [0..<R])) (double_of_size R)"

definition query_time :: "env \<Rightarrow> nat \<Rightarrow> nat \<Rightarrow> nat \<Rightarrow> double" where
  "query_time e c N R =
     ddiv (dsum (map (\<lambda>r. amortized_query_time e (rep_start c N r) N) [0..<R])) (double_of_size R)"






text \<open>The values an operation of a format can return.\<close>

definition is_value :: "format \<Rightarrow> ieee \<Rightarrow> bool" where
  "is_value fmt v = (case v of Finite r \<Rightarrow> representable fmt r | _ \<Rightarrow> True)"

subsection \<open>Reading the output\<close>

text \<open>
  The lines of a text (each line terminator ends a line; text after the last terminator
  would be one more line), the tokens of a line (the maximal runs of characters other
  than the space), and the line that the printing loop writes for a list of values.
\<close>

fun text_lines_from :: "string \<Rightarrow> string \<Rightarrow> string list" where
  "text_lines_from cur [] = (if cur = [] then [] else [cur])"
| "text_lines_from cur (c # cs) =
     (if c = CHR 0x0A then cur # text_lines_from [] cs else text_lines_from (cur @ [c]) cs)"

definition text_lines :: "string \<Rightarrow> string list" where
  "text_lines s = text_lines_from [] s"

fun tokens_from :: "string \<Rightarrow> string \<Rightarrow> string list" where
  "tokens_from cur [] = (if cur = [] then [] else [cur])"
| "tokens_from cur (c # cs) =
     (if c = CHR '' '' then (if cur = [] then tokens_from [] cs else cur # tokens_from [] cs)
      else tokens_from (cur @ [c]) cs)"

definition tokens :: "string \<Rightarrow> string list" where
  "tokens s = tokens_from [] s"

definition printed_line :: "env \<Rightarrow> double list \<Rightarrow> string" where
  "printed_line e vs = concat (map (\<lambda>v. show_double e v @ '' '') vs)"

section \<open>Example environments\<close>

text \<open>
  Concrete inputs on which the theorems below are instantiated. \<open>example_show\<close> stands in
  for the text of a \<^verbatim>\<open>double\<close>: only the shape of its tokens matters. \<open>stub_clock\<close> is the
  clock of a stubbed adapter for runs at one size \<open>N\<close>: time passes only inside a build
  (\<open>build_ticks\<close>) and inside a search (\<open>query_ticks\<close>).
\<close>

definition example_show :: "double \<Rightarrow> string" where
  "example_show v =
     (case v of Finite r \<Rightarrow> (if r = 0 then ''0'' else ''1e-06'')
      | PInf \<Rightarrow> ''inf'' | NInf \<Rightarrow> ''-inf'' | NaN \<Rightarrow> ''nan'')"

definition example_env :: env where
  "example_env =
     \<lparr>rand_values = (\<lambda>k. 1237 * k + 4321),
      clock_values = (\<lambda>k. 1000000 * int (k * k)),
      CLOCKS_PER_SEC = 1000000,
      show_double = example_show\<rparr>"

definition example_env_other :: env where
  "example_env_other =
     \<lparr>rand_values = (\<lambda>k. if k < 6 then 1237 * k + 4321 else 0),
      clock_values = (\<lambda>k. 17),
      CLOCKS_PER_SEC = 1000,
      show_double = (\<lambda>v. ''?'')\<rparr>"

definition max_draw_env :: env where
  "max_draw_env =
     \<lparr>rand_values = (\<lambda>k. 1000 * k + 999),
      clock_values = (\<lambda>k. 1000000 * int k),
      CLOCKS_PER_SEC = 1000000,
      show_double = example_show\<rparr>"

definition example_Ns :: "nat list" where
  "example_Ns = [0, 1]"

definition example_nReps :: "nat list" where
  "example_nReps = [1, 2]"


definition stub_clock :: "nat \<Rightarrow> int \<Rightarrow> int \<Rightarrow> nat \<Rightarrow> int" where
  "stub_clock N build_ticks query_ticks k =
     (let per_rep = 2 + 2 * N; r = k div per_rep; m = k mod per_rep
      in int r * (build_ticks + int N * query_ticks)
         + (if m = 0 then 0 else build_ticks + query_ticks * int ((m - 1) div 2)))"

definition latency_env :: "nat \<Rightarrow> int \<Rightarrow> int \<Rightarrow> env" where
  "latency_env N build_ticks query_ticks =
     \<lparr>rand_values = (\<lambda>k. 7 * k),
      clock_values = stub_clock N build_ticks query_ticks,
      CLOCKS_PER_SEC = 1000000,
      show_double = example_show\<rparr>"

definition stub_env :: "nat \<Rightarrow> env" where
  "stub_env N = latency_env N 5000000 2000000"


section \<open>Properties of the rounding\<close>

lemma rne_of_int [simp]: "rne (of_int k) = k"
  by (simp add: rne_def)

lemma rne_error: "\<bar>of_int (rne a) - a\<bar> \<le> 1 / 2"
  unfolding rne_def Let_def by (auto simp: abs_le_iff)

lemma rne_le_int: "a \<le> of_int k \<Longrightarrow> rne a \<le> k"
  unfolding rne_def Let_def
  by (auto simp: le_floor_iff floor_le_iff)

lemma rne_ge_int: "of_int k \<le> a \<Longrightarrow> k \<le> rne a"
proof -
  assume "of_int k \<le> a"
  then have "k \<le> \<lfloor>a\<rfloor>" by (simp add: le_floor_iff)
  then show ?thesis unfolding rne_def Let_def by auto
qed

lemma rne_mono: "a \<le> b \<Longrightarrow> rne a \<le> rne b"
proof -
  assume ab: "a \<le> b"
  show ?thesis
  proof (cases "\<lfloor>a\<rfloor> = \<lfloor>b\<rfloor>")
    case True
    then show ?thesis using ab unfolding rne_def Let_def by auto
  next
    case False
    with ab have lt: "\<lfloor>a\<rfloor> < \<lfloor>b\<rfloor>" by (simp add: floor_mono order.strict_iff_order)
    have "rne a \<le> \<lfloor>a\<rfloor> + 1" unfolding rne_def Let_def by auto
    moreover have "\<lfloor>b\<rfloor> \<le> rne b" unfolding rne_def Let_def by auto
    ultimately show ?thesis using lt by linarith
  qed
qed


lemma powi2_le_iff: "(2::real) powi a \<le> 2 powi b \<longleftrightarrow> a \<le> b"
proof
  assume le: "(2::real) powi a \<le> 2 powi b"
  show "a \<le> b"
  proof (rule ccontr)
    assume "\<not> a \<le> b"
    then have "(2::real) powi b < 2 powi a"
      by (intro power_int_strict_increasing) simp_all
    with le show False by simp
  qed
next
  assume "a \<le> b"
  then show "(2::real) powi a \<le> 2 powi b"
    by (intro power_int_increasing) simp_all
qed

lemma powi2_less_iff: "(2::real) powi a < 2 powi b \<longleftrightarrow> a < b"
  using powi2_le_iff [of b a] by (simp add: not_le [symmetric])

lemma ulp_exp_from_bounds:
  "q \<le> ulp_exp_from n p q a \<and> ulp_exp_from n p q a \<le> q + int n"
proof (induction n arbitrary: q)
  case 0
  show ?case by simp
next
  case (Suc n)
  from Suc [of "q + 1"] show ?case by auto
qed

lemma ulp_exp_from_upper:
  "a < 2 powi (q + int n + int p) \<Longrightarrow> a < 2 powi (ulp_exp_from n p q a + int p)"
proof (induction n arbitrary: q)
  case 0
  then show ?case by simp
next
  case (Suc n)
  from Suc.prems have "a < 2 powi (q + 1 + int n + int p)"
    by (simp add: add.commute add.left_commute)
  from Suc.IH [OF this] show ?case by simp
qed

lemma ulp_exp_from_lower:
  "q < ulp_exp_from n p q a \<Longrightarrow> 2 powi (ulp_exp_from n p q a + int p - 1) \<le> a"
proof (induction n arbitrary: q)
  case 0
  then show ?case by simp
next
  case (Suc n)
  show ?case
  proof (cases "a < 2 powi (q + int p)")
    case True
    with Suc.prems show ?thesis by simp
  next
    case False
    then have r: "ulp_exp_from (Suc n) p q a = ulp_exp_from n p (q + 1) a" by simp
    show ?thesis
    proof (cases "q + 1 < ulp_exp_from n p (q + 1) a")
      case True
      from Suc.IH [OF this] show ?thesis by (simp only: r)
    next
      case False
      with ulp_exp_from_bounds [of "q + 1" n p a]
      have "ulp_exp_from n p (q + 1) a = q + 1" by simp
      with \<open>\<not> a < 2 powi (q + int p)\<close> show ?thesis by (simp only: r) simp
    qed
  qed
qed

lemma ulp_exp_props:
  assumes "valid_format fmt" and "\<bar>v\<bar> < 2 powi max_exp fmt"
  shows "min_exp fmt \<le> ulp_exp fmt v"
    and "ulp_exp fmt v \<le> max_exp fmt - int (precision fmt)"
    and "\<bar>v\<bar> < 2 powi (ulp_exp fmt v + int (precision fmt))"
    and "ulp_exp fmt v = min_exp fmt \<or> 2 powi (ulp_exp fmt v + int (precision fmt) - 1) \<le> \<bar>v\<bar>"
proof -
  let ?n = "nat (max_exp fmt - int (precision fmt) - min_exp fmt)"
  from assms(1) have n: "int ?n = max_exp fmt - int (precision fmt) - min_exp fmt"
    by (simp add: valid_format_def)
  from ulp_exp_from_bounds [of "min_exp fmt" ?n "precision fmt" "\<bar>v\<bar>"] n
  show "min_exp fmt \<le> ulp_exp fmt v" "ulp_exp fmt v \<le> max_exp fmt - int (precision fmt)"
    by (simp_all add: ulp_exp_def)
  have "min_exp fmt + int ?n + int (precision fmt) = max_exp fmt"
    using n by simp
  with assms(2) have "\<bar>v\<bar> < 2 powi (min_exp fmt + int ?n + int (precision fmt))"
    by simp
  from ulp_exp_from_upper [OF this]
  show "\<bar>v\<bar> < 2 powi (ulp_exp fmt v + int (precision fmt))"
    by (simp add: ulp_exp_def)
  show "ulp_exp fmt v = min_exp fmt \<or> 2 powi (ulp_exp fmt v + int (precision fmt) - 1) \<le> \<bar>v\<bar>"
  proof (cases "min_exp fmt < ulp_exp fmt v")
    case True
    then have "min_exp fmt < ulp_exp_from ?n (precision fmt) (min_exp fmt) \<bar>v\<bar>"
      by (simp add: ulp_exp_def)
    from ulp_exp_from_lower [OF this] show ?thesis
      by (simp add: ulp_exp_def)
  next
    case False
    with \<open>min_exp fmt \<le> ulp_exp fmt v\<close> show ?thesis by simp
  qed
qed

lemma ulp_exp_unique:
  assumes "valid_format fmt" and "\<bar>v\<bar> < 2 powi max_exp fmt"
    and "min_exp fmt \<le> q" and "\<bar>v\<bar> < 2 powi (q + int (precision fmt))"
    and "q = min_exp fmt \<or> 2 powi (q + int (precision fmt) - 1) \<le> \<bar>v\<bar>"
  shows "ulp_exp fmt v = q"
proof -
  let ?q0 = "ulp_exp fmt v" and ?p = "int (precision fmt)"
  note P = ulp_exp_props [OF assms(1,2)]
  have "?q0 \<le> q"
  proof (rule ccontr)
    assume "\<not> ?q0 \<le> q"
    then have gt: "q < ?q0" by simp
    with assms(3) P(4) have "2 powi (?q0 + ?p - 1) \<le> \<bar>v\<bar>" by auto
    with assms(4) have "(2::real) powi (?q0 + ?p - 1) < 2 powi (q + ?p)" by linarith
    then have "?q0 + ?p - 1 < q + ?p" by (simp only: powi2_less_iff)
    with gt show False by simp
  qed
  moreover have "q \<le> ?q0"
  proof (rule ccontr)
    assume "\<not> q \<le> ?q0"
    then have gt: "?q0 < q" by simp
    with P(1) assms(5) have "2 powi (q + ?p - 1) \<le> \<bar>v\<bar>" by auto
    with P(3) have "(2::real) powi (q + ?p - 1) < 2 powi (?q0 + ?p)" by linarith
    then have "q + ?p - 1 < ?q0 + ?p" by (simp only: powi2_less_iff)
    with gt show False by simp
  qed
  ultimately show ?thesis by simp
qed


lemma fround_rval:
  "fround fmt v =
     (if 2 powi max_exp fmt \<le> \<bar>v\<bar> then overflow v
      else if 2 powi max_exp fmt \<le> \<bar>rval fmt v\<bar> then overflow (rval fmt v)
      else Finite (rval fmt v))"
  by (simp add: fround_def rval_def Let_def)

lemma rne_0 [simp]: "rne 0 = 0"
  using rne_of_int [of 0] by simp

lemma powi2_pos [simp]: "\<not> (2::real) powi e \<le> 0"
  by (simp add: not_le)

lemma fround_0 [simp]: "fround fmt 0 = Finite 0"
  by (simp add: fround_def Let_def)

lemma rval_int_scaled:
  assumes "valid_format fmt" and "\<bar>m\<bar> < 2 ^ precision fmt" and "min_exp fmt \<le> q"
    and "\<bar>of_int m * 2 powi q\<bar> < (2::real) powi max_exp fmt"
  shows "rval fmt (of_int m * 2 powi q) = of_int m * 2 powi q"
proof -
  define v where "v = of_int m * (2::real) powi q"
  define q0 where "q0 = ulp_exp fmt v"
  let ?p = "int (precision fmt)"
  from assms(4) have v4: "\<bar>v\<bar> < 2 powi max_exp fmt" by (simp add: v_def)
  note P = ulp_exp_props [OF assms(1) v4, folded q0_def]
  have "\<bar>real_of_int m\<bar> < 2 ^ precision fmt"
    using assms(2) by (metis of_int_abs of_int_less_numeral_power_cancel_iff)
  then have "\<bar>v\<bar> < 2 ^ precision fmt * 2 powi q"
    by (simp add: abs_mult v_def)
  also have "\<dots> = 2 powi (q + ?p)"
    by (simp add: power_int_add)
  finally have up: "\<bar>v\<bar> < 2 powi (q + ?p)" .
  have le: "q0 \<le> q"
  proof (cases "q0 = min_exp fmt")
    case True
    with assms(3) show ?thesis by simp
  next
    case False
    with P(4) have "2 powi (q0 + ?p - 1) \<le> \<bar>v\<bar>" by simp
    with up have "(2::real) powi (q0 + ?p - 1) < 2 powi (q + ?p)" by linarith
    then show ?thesis by (simp add: powi2_less_iff)
  qed
  define k where "k = nat (q - q0)"
  with le have q: "q = q0 + int k" by simp
  have pq: "(2::real) powi q = 2 ^ k * 2 powi q0"
    by (subst q) (simp add: power_int_add)
  have vk: "v = of_int (m * 2 ^ k) * 2 powi q0"
    by (simp add: v_def pq)
  then have "v / 2 powi q0 = of_int (m * 2 ^ k)"
    by simp
  then have "rne (v / 2 powi q0) = m * 2 ^ k"
    by (simp only: rne_of_int)
  then have "rval fmt v = of_int (m * 2 ^ k) * 2 powi q0"
    by (simp only: rval_def q0_def)
  with vk have "rval fmt v = v" by simp
  then show ?thesis by (simp only: v_def)
qed

lemma fround_int_scaled:
  assumes "valid_format fmt" and "\<bar>m\<bar> < 2 ^ precision fmt" and "min_exp fmt \<le> q"
    and "\<bar>of_int m * 2 powi q\<bar> < (2::real) powi max_exp fmt"
  shows "fround fmt (of_int m * 2 powi q) = Finite (of_int m * 2 powi q)"
  using assms(4) by (simp add: fround_rval rval_int_scaled [OF assms])

lemma rne_abs_bound:
  assumes "\<bar>a\<bar> < of_int k"
  shows "\<bar>rne a\<bar> \<le> k"
proof -
  from assms have "a \<le> of_int k" "of_int (- k) \<le> a" by simp_all
  then have "rne a \<le> k" "- k \<le> rne a" by (simp_all add: rne_le_int rne_ge_int)
  then show ?thesis by simp
qed


lemma rval_nonneg:
  assumes "0 \<le> v"
  shows "0 \<le> rval fmt v"
proof -
  from assms have "of_int 0 \<le> v / 2 powi ulp_exp fmt v" by simp
  then have "0 \<le> rne (v / 2 powi ulp_exp fmt v)" by (rule rne_ge_int)
  then show ?thesis by (simp add: rval_def)
qed

lemma rval_error:
  "\<bar>rval fmt v - v\<bar> \<le> 2 powi ulp_exp fmt v / 2"
proof -
  define q where "q = ulp_exp fmt v"
  have "rval fmt v - v = (of_int (rne (v / 2 powi q)) - v / 2 powi q) * 2 powi q"
    by (simp add: rval_def q_def algebra_simps)
  then have "\<bar>rval fmt v - v\<bar> = \<bar>of_int (rne (v / 2 powi q)) - v / 2 powi q\<bar> * 2 powi q"
    by (simp add: abs_mult)
  also have "\<dots> \<le> 1 / 2 * 2 powi q"
    by (intro mult_right_mono rne_error) simp
  finally show ?thesis by (simp add: q_def)
qed

lemma rval_abs_bound:
  assumes "valid_format fmt" and "\<bar>v\<bar> < 2 powi max_exp fmt"
  shows "\<bar>rne (v / 2 powi ulp_exp fmt v)\<bar> \<le> 2 ^ precision fmt"
proof -
  define q where "q = ulp_exp fmt v"
  note P = ulp_exp_props [OF assms, folded q_def]
  have "\<bar>v / 2 powi q\<bar> = \<bar>v\<bar> / 2 powi q" by simp
  also have "\<dots> < 2 powi (q + int (precision fmt)) / 2 powi q"
    using P(3) by (simp add: divide_strict_right_mono)
  also have "\<dots> = of_int (2 ^ precision fmt)"
    by (simp add: power_int_add)
  finally have "\<bar>rne (v / 2 powi q)\<bar> \<le> 2 ^ precision fmt" by (rule rne_abs_bound)
  then show ?thesis by (simp only: q_def)
qed

lemma rval_idem:
  assumes "valid_format fmt" and "\<bar>v\<bar> < 2 powi max_exp fmt"
    and "\<bar>rval fmt v\<bar> < 2 powi max_exp fmt"
  shows "rval fmt (rval fmt v) = rval fmt v"
proof -
  define q where "q = ulp_exp fmt v"
  define n where "n = rne (v / 2 powi q)"
  note P = ulp_exp_props [OF assms(1,2), folded q_def]
  have r: "rval fmt v = of_int n * 2 powi q"
    by (simp add: rval_def q_def n_def)
  have nb: "\<bar>n\<bar> \<le> 2 ^ precision fmt"
    using rval_abs_bound [OF assms(1,2)] by (simp add: n_def q_def)
  show ?thesis
  proof (cases "\<bar>n\<bar> < 2 ^ precision fmt")
    case True
    from rval_int_scaled [OF assms(1) True P(1)] assms(3)
    show ?thesis by (simp add: r)
  next
    case False
    with nb have n: "\<bar>n\<bar> = 2 ^ precision fmt" by simp
    from assms(1) obtain p' where p': "precision fmt = Suc p'"
      by (auto simp: valid_format_def gr0_conv_Suc)
    define m where "m = (if 0 \<le> n then 2 ^ p' else - (2 ^ p') :: int)"
    have nm: "n = m * 2" using n by (auto simp: m_def p' abs_if split: if_splits)
    have mb: "\<bar>m\<bar> < 2 ^ precision fmt" by (simp add: m_def p')
    have r': "rval fmt v = of_int m * 2 powi (q + 1)"
      by (simp add: r nm power_int_add)
    from rval_int_scaled [OF assms(1) mb, of "q + 1"] P(1) assms(3)
    show ?thesis by (simp add: r')
  qed
qed

lemma ulp_exp_mono:
  assumes "valid_format fmt" and "\<bar>a\<bar> \<le> \<bar>b\<bar>" and "\<bar>b\<bar> < 2 powi max_exp fmt"
  shows "ulp_exp fmt a \<le> ulp_exp fmt b"
proof (rule ccontr)
  assume "\<not> ulp_exp fmt a \<le> ulp_exp fmt b"
  then have lt: "ulp_exp fmt b < ulp_exp fmt a" by simp
  from assms(2,3) have a: "\<bar>a\<bar> < 2 powi max_exp fmt" by simp
  note Pa = ulp_exp_props [OF assms(1) a] and Pb = ulp_exp_props [OF assms(1,3)]
  from lt Pb(1) Pa(4) have "2 powi (ulp_exp fmt a + int (precision fmt) - 1) \<le> \<bar>a\<bar>" by auto
  with assms(2) Pb(3)
  have "(2::real) powi (ulp_exp fmt a + int (precision fmt) - 1)
        < 2 powi (ulp_exp fmt b + int (precision fmt))" by linarith
  then have "ulp_exp fmt a + int (precision fmt) - 1 < ulp_exp fmt b + int (precision fmt)"
    by (simp only: powi2_less_iff)
  with lt show False by simp
qed

lemma rval_mono:
  assumes "valid_format fmt" and "0 \<le> a" and "a \<le> b" and "b < 2 powi max_exp fmt"
  shows "rval fmt a \<le> rval fmt b"
proof -
  define qa where "qa = ulp_exp fmt a"
  define qb where "qb = ulp_exp fmt b"
  let ?p = "int (precision fmt)"
  from assms have ab: "\<bar>a\<bar> \<le> \<bar>b\<bar>" and b: "\<bar>b\<bar> < 2 powi max_exp fmt"
    and a: "\<bar>a\<bar> < 2 powi max_exp fmt" by simp_all
  note Pa = ulp_exp_props [OF assms(1) a, folded qa_def]
  note Pb = ulp_exp_props [OF assms(1) b, folded qb_def]
  have le: "qa \<le> qb"
    using ulp_exp_mono [OF assms(1) ab b] by (simp add: qa_def qb_def)
  show ?thesis
  proof (cases "qa = qb")
    case True
    have "a / 2 powi qb \<le> b / 2 powi qb"
      using assms(3) by (simp add: divide_right_mono)
    then have "rne (a / 2 powi qb) \<le> rne (b / 2 powi qb)" by (rule rne_mono)
    then have "real_of_int (rne (a / 2 powi qb)) * 2 powi qb
               \<le> real_of_int (rne (b / 2 powi qb)) * 2 powi qb"
      by (intro mult_right_mono) simp_all
    then show ?thesis
      using True by (simp add: rval_def flip: qa_def qb_def)
  next
    case False
    with le have lt: "qa < qb" by simp
    with Pb(1) Pa(1) Pb(4) have lb: "2 powi (qb + ?p - 1) \<le> b"
      using assms(2,3) by auto
    have "a / 2 powi qa \<le> of_int (2 ^ precision fmt)"
    proof -
      have "a / 2 powi qa \<le> 2 powi (qa + ?p) / 2 powi qa"
        using Pa(3) assms(2) by (intro divide_right_mono) simp_all
      then show ?thesis by (simp add: power_int_add)
    qed
    then have "rne (a / 2 powi qa) \<le> 2 ^ precision fmt" by (rule rne_le_int)
    then have "real_of_int (rne (a / 2 powi qa)) \<le> 2 ^ precision fmt"
      by (metis of_int_le_numeral_power_cancel_iff)
    then have "rval fmt a \<le> 2 ^ precision fmt * 2 powi qa"
      by (simp add: rval_def mult_right_mono flip: qa_def)
    also have "\<dots> = 2 powi (qa + ?p)"
      by (simp add: power_int_add)
    also have "\<dots> \<le> 2 powi (qb + ?p - 1)"
      using lt by (simp add: powi2_le_iff)
    also have "\<dots> \<le> rval fmt b"
    proof -
      from assms(1) obtain p' where p': "precision fmt = Suc p'"
        by (auto simp: valid_format_def gr0_conv_Suc)
      have "(2::real) powi (qb + ?p - 1) = of_int (2 ^ p') * 2 powi qb"
        by (simp add: p' power_int_add)
      with lb have "of_int (2 ^ p') \<le> b / 2 powi qb"
        by (simp add: pos_le_divide_eq)
      then have "2 ^ p' \<le> rne (b / 2 powi qb)" by (rule rne_ge_int)
      then have "real_of_int (2 ^ p') \<le> real_of_int (rne (b / 2 powi qb))"
        by (simp only: of_int_le_iff)
      then have "real_of_int (2 ^ p') * 2 powi qb \<le> rval fmt b"
        by (simp add: rval_def mult_right_mono flip: qb_def)
      then show ?thesis
        by (simp add: p' power_int_add mult.commute)
    qed
    finally show ?thesis .
  qed
qed


lemma valid_binary32 [simp]: "valid_format binary32"
  by (simp add: valid_format_def binary32_def)

lemma valid_binary64 [simp]: "valid_format binary64"
  by (simp add: valid_format_def binary64_def)

lemma fround_eval:
  assumes "valid_format fmt" and "\<bar>v\<bar> < 2 powi max_exp fmt"
    and "min_exp fmt \<le> q" and "\<bar>v\<bar> < 2 powi (q + int (precision fmt))"
    and "q = min_exp fmt \<or> 2 powi (q + int (precision fmt) - 1) \<le> \<bar>v\<bar>"
    and "rne (v / 2 powi q) = n"
    and "\<bar>of_int n * 2 powi q\<bar> < (2::real) powi max_exp fmt"
  shows "fround fmt v = Finite (of_int n * 2 powi q)"
proof -
  have q: "ulp_exp fmt v = q"
    by (rule ulp_exp_unique) (fact assms)+
  show ?thesis
    using assms(2,6,7) by (simp add: fround_rval rval_def q)
qed

lemma fround_Finite_D:
  assumes "fround fmt v = Finite r"
  shows "r = rval fmt v" and "\<bar>v\<bar> < 2 powi max_exp fmt" and "\<bar>r\<bar> < 2 powi max_exp fmt"
  using assms
  by (auto simp add: fround_rval overflow_def split: if_splits)

lemma fround_FiniteI:
  assumes "\<bar>v\<bar> < 2 powi max_exp fmt" and "\<bar>rval fmt v\<bar> < 2 powi max_exp fmt"
  shows "fround fmt v = Finite (rval fmt v)"
  using assms by (simp add: fround_rval)

lemma fround_idem:
  assumes "valid_format fmt" and "fround fmt v = Finite r"
  shows "representable fmt r"
proof -
  note D = fround_Finite_D [OF assms(2)]
  have "rval fmt r = r"
    using rval_idem [OF assms(1) D(2)] D(1,3) by simp
  with D(3) show ?thesis
    by (simp add: representable_def fround_rval)
qed

lemma representable_int_scaled:
  assumes "valid_format fmt" and "\<bar>m\<bar> < 2 ^ precision fmt" and "min_exp fmt \<le> q"
    and "\<bar>of_int m * 2 powi q\<bar> < (2::real) powi max_exp fmt"
  shows "representable fmt (of_int m * 2 powi q)"
  unfolding representable_def by (rule fround_int_scaled) (fact assms)+

lemma representable_0 [simp]: "representable fmt 0"
  by (simp add: representable_def)

lemma representable_pos_lower:
  assumes "valid_format fmt" and "representable fmt v" and "0 < v"
  shows "2 powi min_exp fmt \<le> v"
proof -
  from assms(2) have f: "fround fmt v = Finite v" by (simp add: representable_def)
  note D = fround_Finite_D [OF f]
  define q where "q = ulp_exp fmt v"
  define n where "n = rne (v / 2 powi q)"
  have v: "v = of_int n * 2 powi q"
    using D(1) by (simp add: rval_def q_def n_def)
  have "0 \<le> n"
    using assms(3) by (simp add: n_def rne_ge_int)
  moreover have "n \<noteq> 0"
    using v assms(3) by auto
  ultimately have "1 \<le> n" by simp
  then have "(1::real) \<le> of_int n" by simp
  then have "1 * 2 powi q \<le> of_int n * (2::real) powi q"
    by (intro mult_right_mono) simp_all
  then have "2 powi q \<le> v"
    by (simp add: v [symmetric])
  moreover have "(2::real) powi min_exp fmt \<le> 2 powi q"
    using ulp_exp_props(1) [OF assms(1) D(2)] by (simp add: powi2_le_iff q_def)
  ultimately show ?thesis by linarith
qed

lemma fround_below_representable:
  assumes "valid_format fmt" and "0 \<le> a" and "a \<le> b" and "representable fmt b"
  shows "\<exists>r. fround fmt a = Finite r \<and> 0 \<le> r \<and> r \<le> b"
proof -
  from assms(4) have f: "fround fmt b = Finite b" by (simp add: representable_def)
  note D = fround_Finite_D [OF f]
  from assms(2,3) D(2) have b: "b < 2 powi max_exp fmt" and a: "\<bar>a\<bar> < 2 powi max_exp fmt"
    by simp_all
  have "rval fmt a \<le> rval fmt b"
    by (rule rval_mono) (fact assms(1,2,3) b)+
  with D(1) have le: "rval fmt a \<le> b" by simp
  have ge: "0 \<le> rval fmt a" by (rule rval_nonneg) (fact assms(2))
  from le ge b have "\<bar>rval fmt a\<bar> < 2 powi max_exp fmt" by simp
  with a have "fround fmt a = Finite (rval fmt a)" by (rule fround_FiniteI)
  with le ge show ?thesis by blast
qed

lemma fround_nonneg_cases:
  assumes "0 \<le> v"
  shows "fround fmt v = PInf \<or> (\<exists>r. fround fmt v = Finite r \<and> 0 \<le> r)"
proof -
  have r: "0 \<le> rval fmt v" by (rule rval_nonneg) (fact assms)
  have "0 < v" if "2 powi max_exp fmt \<le> \<bar>v\<bar>"
  proof -
    have "(0::real) < 2 powi max_exp fmt" by simp
    with that assms show ?thesis by linarith
  qed
  moreover have "0 < rval fmt v" if "2 powi max_exp fmt \<le> \<bar>rval fmt v\<bar>"
  proof -
    have "(0::real) < 2 powi max_exp fmt" by simp
    with that r show ?thesis by linarith
  qed
  ultimately show ?thesis
    using r by (auto simp add: fround_rval overflow_def)
qed

lemma fround32_int:
  assumes "\<bar>k\<bar> < 2 ^ 24"
  shows "fround binary32 (of_int k) = Finite (of_int k)"
proof -
  have "\<bar>real_of_int k\<bar> < 2 ^ 24"
    using assms by (metis of_int_abs of_int_less_numeral_power_cancel_iff)
  then have "\<bar>real_of_int k * 2 powi 0\<bar> < 2 powi max_exp binary32"
    by (simp add: binary32_def)
  from fround_int_scaled [OF valid_binary32 _ _ this] assms
  show ?thesis by (simp add: binary32_def)
qed

lemma fround64_int:
  assumes "\<bar>k\<bar> < 2 ^ 53"
  shows "fround binary64 (of_int k) = Finite (of_int k)"
proof -
  have "\<bar>real_of_int k\<bar> < 2 ^ 53"
    using assms by (metis of_int_abs of_int_less_numeral_power_cancel_iff)
  then have "\<bar>real_of_int k * 2 powi 0\<bar> < 2 powi max_exp binary64"
    by (simp add: binary64_def)
  from fround_int_scaled [OF valid_binary64 _ _ this] assms
  show ?thesis by (simp add: binary64_def)
qed

lemma fround32_numeral:
  "numeral n < (2::int) ^ 24 \<Longrightarrow> fround binary32 (numeral n) = Finite (numeral n)"
  using fround32_int [of "numeral n"] by simp

lemma fround32_neg_numeral:
  "numeral n < (2::int) ^ 24 \<Longrightarrow> fround binary32 (- numeral n) = Finite (- numeral n)"
  using fround32_int [of "- numeral n"] by simp

lemma fround32_1 [simp]: "fround binary32 1 = Finite 1"
  using fround32_int [of 1] by simp

lemma fround64_numeral:
  "numeral n < (2::int) ^ 53 \<Longrightarrow> fround binary64 (numeral n) = Finite (numeral n)"
  using fround64_int [of "numeral n"] by simp

lemma fround64_1 [simp]: "fround binary64 1 = Finite 1"
  using fround64_int [of 1] by simp

lemma float_of_nat_small: "n < 2 ^ 24 \<Longrightarrow> float_of_nat n = Finite (real n)"
  using fround32_int [of "int n"] by (simp add: float_of_nat_def)

lemma float_of_int_1000 [simp]: "float_of_int 1000 = Finite 1000"
  by (simp add: float_of_int_def fround32_numeral)

lemma float_of_int_10 [simp]: "float_of_int 10 = Finite 10"
  by (simp add: float_of_int_def fround32_numeral)

lemma double_of_size_0 [simp]: "double_of_size 0 = Finite 0"
  by (simp add: double_of_size_def)

lemma double_of_size_1 [simp]: "double_of_size (Suc 0) = Finite 1"
  by (simp add: double_of_size_def)

section \<open>Properties of the data set class\<close>

lemma upt_3: "[0..<3] = [0, 1, 2]"
  by (simp add: upt_rec numeral_3_eq_3)

lemma fround32_sq_ex_a: "fround binary32 (4097 / 4096) = Finite (4097 / 4096)"
  using fround_eval [OF valid_binary32, of "4097 / 4096" "- 23" "8390656"]
  by (simp add: binary32_def rne_def)

lemma fround32_sq_ex_b: "fround binary32 (16785409 / 16777216) = Finite (2049 / 2048)"
  using fround_eval [OF valid_binary32, of "16785409 / 16777216" "- 23" "8392704"]
  by (simp add: binary32_def rne_def)

lemma fround32_sq_ex_c: "fround binary32 (2049 / 2048) = Finite (2049 / 2048)"
  using fround_eval [OF valid_binary32, of "2049 / 2048" "- 23" "8392704"]
  by (simp add: binary32_def rne_def)

text \<open>
  C7 (as the code has it). For every cloud, every query array \<open>p1\<close> (holding at least the
  three components the function reads) and every in-range point index, \<open>kdtree_distance\<close>
  returns the sum over the three axes of the squared coordinate differences as \<^verbatim>\<open>float\<close>
  arithmetic computes it: each difference, each square and each of the two sums is rounded
  to the nearest \<^verbatim>\<open>float\<close>. No square root is taken. The result is exactly the squared
  Euclidean distance whenever none of these eight operations rounds, that is, whenever the
  three differences, the three squares and the two sums are numbers of the format.
\<close>

theorem kdtree_distance_squared_euclidean:
  assumes "idx_p2 < kdtree_get_point_count pc" and "3 \<le> length p1"
  shows "(let d0 = fsub (p1 ! 0) (x (pts pc ! idx_p2));
              d1 = fsub (p1 ! 1) (y (pts pc ! idx_p2));
              d2 = fsub (p1 ! 2) (z (pts pc ! idx_p2))
          in kdtree_distance pc p1 idx_p2 sz =
               Some (fadd (fadd (fmul d0 d0) (fmul d1 d1)) (fmul d2 d2)))
       \<and> (p1 ! 0 = Finite ax \<and> p1 ! 1 = Finite ay \<and> p1 ! 2 = Finite az
          \<and> pts pc ! idx_p2 = \<lparr>x = Finite cx, y = Finite cy, z = Finite cz\<rparr>
          \<and> representable binary32 (ax - cx)
          \<and> representable binary32 (ay - cy)
          \<and> representable binary32 (az - cz)
          \<and> representable binary32 ((ax - cx)\<^sup>2)
          \<and> representable binary32 ((ay - cy)\<^sup>2)
          \<and> representable binary32 ((az - cz)\<^sup>2)
          \<and> representable binary32 ((ax - cx)\<^sup>2 + (ay - cy)\<^sup>2)
          \<and> representable binary32 ((ax - cx)\<^sup>2 + (ay - cy)\<^sup>2 + (az - cz)\<^sup>2)
          \<longrightarrow> kdtree_distance pc p1 idx_p2 sz =
                Some (Finite (squared_euclidean_spec [ax, ay, az] [cx, cy, cz])))"
  using assms
  by (simp add: kdtree_distance_def kdtree_get_point_count_def squared_euclidean_spec_def
      upt_3 Let_def fsub_def fadd_def fmul_def fp_sub_def representable_def
      power2_eq_square)

theorem kdtree_distance_squared_euclidean_witness:
  "kdtree_distance \<lparr>pts = [\<lparr>x = Finite 0, y = Finite 0, z = Finite 0\<rparr>,
                            \<lparr>x = Finite 1, y = Finite 2, z = Finite 3\<rparr>]\<rparr>
     [Finite 4, Finite 6, Finite 3] 1 3 = Some (Finite 25)"
  using kdtree_distance_squared_euclidean
          [where ?idx_p2.0 = 1
             and pc = "\<lparr>pts = [\<lparr>x = Finite 0, y = Finite 0, z = Finite 0\<rparr>,
                               \<lparr>x = Finite 1, y = Finite 2, z = Finite 3\<rparr>]\<rparr>"
             and ?p1.0 = "[Finite 4, Finite 6, Finite 3]" and sz = 3
             and ax = 4 and ay = 6 and az = 3 and cx = 1 and cy = 2 and cz = 3]
  by (simp add: kdtree_get_point_count_def squared_euclidean_spec_def upt_3
      representable_def fround32_numeral)

text \<open>
  The claim as the specification states it, with the exact sum, fails: the square of
  \<open>1 + 2 powi (- 12)\<close> is no \<^verbatim>\<open>float\<close>, and the function returns its rounding.
\<close>

theorem kdtree_distance_squared_euclidean_counterexample:
  "representable binary32 (4097 / 4096)
   \<and> kdtree_distance \<lparr>pts = [\<lparr>x = Finite 0, y = Finite 0, z = Finite 0\<rparr>]\<rparr>
        [Finite (4097 / 4096), Finite 0, Finite 0] 0 3 = Some (Finite (2049 / 2048))
   \<and> squared_euclidean_spec [4097 / 4096, 0, 0] [0, 0, 0] = 16785409 / 16777216"
  by (simp add: kdtree_distance_def squared_euclidean_spec_def upt_3 Let_def
      fsub_def fadd_def fmul_def fp_sub_def representable_def power2_eq_square
      fround32_sq_ex_a fround32_sq_ex_b fround32_sq_ex_c)

text \<open>
  C9. For every cloud, every in-range point index and every integer dimension argument,
  the coordinate accessor returns the x coordinate for dimension 0, the y coordinate for
  dimension 1 and the z coordinate for every other value (3, negative values, ...); an
  invalid dimension is never an error.
\<close>

theorem kdtree_get_pt_dimension:
  assumes "idx < kdtree_get_point_count pc"
  shows "kdtree_get_pt pc idx 0 = Some (x (pts pc ! idx))
       \<and> kdtree_get_pt pc idx 1 = Some (y (pts pc ! idx))
       \<and> (dm \<noteq> 0 \<and> dm \<noteq> 1 \<longrightarrow> kdtree_get_pt pc idx dm = Some (z (pts pc ! idx)))
       \<and> kdtree_get_pt pc idx dm \<noteq> None"
  using assms by (simp add: kdtree_get_pt_def kdtree_get_point_count_def)

theorem kdtree_get_pt_dimension_witness:
  "(0::nat) < kdtree_get_point_count \<lparr>pts = [\<lparr>x = Finite 7, y = Finite 8, z = Finite 9\<rparr>]\<rparr>
   \<and> (3::int) \<noteq> 0 \<and> (3::int) \<noteq> 1
   \<and> kdtree_get_pt \<lparr>pts = [\<lparr>x = Finite 7, y = Finite 8, z = Finite 9\<rparr>]\<rparr> 0 3 = Some (Finite 9)
   \<and> kdtree_get_pt \<lparr>pts = [\<lparr>x = Finite 7, y = Finite 8, z = Finite 9\<rparr>]\<rparr> 0 (- 1) = Some (Finite 9)"
  using kdtree_get_pt_dimension [of 0 "\<lparr>pts = [\<lparr>x = Finite 7, y = Finite 8, z = Finite 9\<rparr>]\<rparr>" 3]
        kdtree_get_pt_dimension [of 0 "\<lparr>pts = [\<lparr>x = Finite 7, y = Finite 8, z = Finite 9\<rparr>]\<rparr>" "- 1"]
  by (simp add: kdtree_get_point_count_def)

section \<open>The loops in closed form\<close>

lemma Point_all_updated: "(p::Point)\<lparr>x := a, y := b, z := c\<rparr> = \<lparr>x = a, y = b, z = c\<rparr>"
  by (cases p) simp

lemma generate_point_eq:
  assumes "i < length ps"
  shows "generate_point e mr i (\<lparr>pts = ps\<rparr>, w) =
     (\<lparr>pts = ps[i := random_point e mr (rand_calls w)]\<rparr>,
      w\<lparr>rand_calls := rand_calls w + 3, events := events w @ [CallRand, CallRand, CallRand]\<rparr>)"
  using assms
  by (simp add: generate_point_def rand_def random_point_def Let_def Point_all_updated)

lemma replicate_3_add: "replicate (3 + n) a = replicate n a @ [a, a, a]"
proof -
  have "replicate (n + 3) a = replicate n a @ replicate 3 a"
    by (rule replicate_add)
  moreover have "replicate 3 a = [a, a, a]"
    by (simp add: numeral_3_eq_3)
  ultimately show ?thesis
    by (simp only: add.commute [of 3 n])
qed

lemma generate_fold:
  "k \<le> N \<Longrightarrow>
   fold (generate_point e mr) [0..<k] (\<lparr>pts = replicate N p0\<rparr>, w) =
     (\<lparr>pts = map (\<lambda>i. random_point e mr (rand_calls w + 3 * i)) [0..<k] @ replicate (N - k) p0\<rparr>,
      w\<lparr>rand_calls := rand_calls w + 3 * k, events := events w @ replicate (3 * k) CallRand\<rparr>)"
proof (induction k)
  case 0
  then show ?case by simp
next
  case (Suc k)
  then have k: "k < N" by simp
  have upd: "(map f [0..<k] @ replicate (N - k) p0)[k := v] = map f [0..<k] @ [v] @ replicate (N - Suc k) p0" for f v
    using k by (cases "N - k") (simp_all add: list_update_append)
  have rep: "replicate (3 + 3 * k) CallRand = replicate (3 * k) CallRand @ [CallRand, CallRand, CallRand]"
    by (rule replicate_3_add)
  from Suc k show ?case
    by (simp add: generate_point_eq upd rep add.commute)
qed

lemma generateRandomPointCloud_eq:
  "generateRandomPointCloud e N mr w =
     (cloud_at e mr (rand_calls w) N,
      w\<lparr>rand_calls := rand_calls w + 3 * N, events := events w @ replicate (3 * N) CallRand\<rparr>)"
  by (simp add: generateRandomPointCloud_def generate_fold cloud_at_def)

lemma query_fold:
  "fold (query_step e cloudT) [0..<k] (acc, w) =
     (foldl dadd acc (map (query_interval e (clock_calls w)) [0..<k]),
      w\<lparr>clock_calls := clock_calls w + 2 * k, events := events w @ query_events cloudT k\<rparr>)"
proof (induction k)
  case 0
  then show ?case by (simp add: query_events_def)
next
  case (Suc k)
  then show ?case
    by (simp add: query_step_def clock_def findNeighbors_def query_events_def
        query_interval_def Let_def)
qed

lemma kdtree_demo_eq:
  "kdtree_demo e N ((buildTimer, queryTimer), w) =
     ((dadd buildTimer (build_interval e (clock_calls w)),
       dadd queryTimer (amortized_query_time e (clock_calls w) N)),
      w\<lparr>rand_calls := rand_calls w + 6 * N,
        clock_calls := clock_calls w + 2 + 2 * N,
        events := events w @ replicate (6 * N) CallRand
                  @ [CallClock, NewIndex 3 (cloud_at e (float_of_int 10) (rand_calls w) N) 10, BuildIndex, CallClock]
                  @ query_events (cloud_at e (float_of_int 10) (rand_calls w + 3 * N) N) N\<rparr>)"
  by (simp add: kdtree_demo_def generateRandomPointCloud_eq clock_def query_fold Let_def
      KDTreeSingleIndexAdaptor_def buildIndex_def
      build_interval_def amortized_query_time_def dsum_def replicate_add [symmetric])

lemma reps_fold:
  "\<exists>ev. fold (\<lambda>repets. kdtree_demo e N) [0..<R] ((b, q), w) =
     ((foldl dadd b (map (\<lambda>r. build_interval e (rep_start (clock_calls w) N r)) [0..<R]),
       foldl dadd q (map (\<lambda>r. amortized_query_time e (rep_start (clock_calls w) N r) N) [0..<R])),
      w\<lparr>rand_calls := rand_calls w + R * (6 * N),
        clock_calls := rep_start (clock_calls w) N R,
        events := events w @ ev\<rparr>)"
proof (induction R)
  case 0
  have "w = w\<lparr>events := events w @ []\<rparr>"
    by simp
  then have "\<exists>ev. w = w\<lparr>events := events w @ ev\<rparr>" by (rule exI)
  then show ?case by (simp add: rep_start_def)
next
  case (Suc R)
  then obtain ev where ih: "fold (\<lambda>repets. kdtree_demo e N) [0..<R] ((b, q), w) =
     ((foldl dadd b (map (\<lambda>r. build_interval e (rep_start (clock_calls w) N r)) [0..<R]),
       foldl dadd q (map (\<lambda>r. amortized_query_time e (rep_start (clock_calls w) N r) N) [0..<R])),
      w\<lparr>rand_calls := rand_calls w + R * (6 * N),
        clock_calls := rep_start (clock_calls w) N R,
        events := events w @ ev\<rparr>)" by blast
  let ?w = "w\<lparr>rand_calls := rand_calls w + R * (6 * N),
        clock_calls := rep_start (clock_calls w) N R,
        events := events w @ ev\<rparr>"
  let ?ev2 = "replicate (6 * N) CallRand
                  @ [CallClock, NewIndex 3 (cloud_at e (float_of_int 10) (rand_calls ?w) N) 10, BuildIndex, CallClock]
                  @ query_events (cloud_at e (float_of_int 10) (rand_calls ?w + 3 * N) N) N"
  have "fold (\<lambda>repets. kdtree_demo e N) [0..<Suc R] ((b, q), w) =
     ((foldl dadd b (map (\<lambda>r. build_interval e (rep_start (clock_calls w) N r)) [0..<Suc R]),
       foldl dadd q (map (\<lambda>r. amortized_query_time e (rep_start (clock_calls w) N r) N) [0..<Suc R])),
      w\<lparr>rand_calls := rand_calls w + Suc R * (6 * N),
        clock_calls := rep_start (clock_calls w) N (Suc R),
        events := events w @ (ev @ ?ev2)\<rparr>)"
    by (simp add: ih kdtree_demo_eq rep_start_def algebra_simps)
  then show ?case by blast
qed

lemma sizes_fold:
  "\<exists>ev. fold (size_step e Ns nReps) [0..<k] ((bs, qs), w) =
     ((bs @ map (\<lambda>i. build_time e (size_start Ns nReps (clock_calls w) i) (Ns ! i) (nReps ! i)) [0..<k],
       qs @ map (\<lambda>i. query_time e (size_start Ns nReps (clock_calls w) i) (Ns ! i) (nReps ! i)) [0..<k]),
      w\<lparr>rand_calls := rand_calls w + draws_before Ns nReps k,
        clock_calls := size_start Ns nReps (clock_calls w) k,
        events := events w @ ev\<rparr>)"
proof (induction k)
  case 0
  have "w = w\<lparr>events := events w @ []\<rparr>"
    by simp
  then have "\<exists>ev. w = w\<lparr>events := events w @ ev\<rparr>" by (rule exI)
  then show ?case by (simp add: size_start_def draws_before_def)
next
  case (Suc k)
  then obtain ev where ih: "fold (size_step e Ns nReps) [0..<k] ((bs, qs), w) =
     ((bs @ map (\<lambda>i. build_time e (size_start Ns nReps (clock_calls w) i) (Ns ! i) (nReps ! i)) [0..<k],
       qs @ map (\<lambda>i. query_time e (size_start Ns nReps (clock_calls w) i) (Ns ! i) (nReps ! i)) [0..<k]),
      w\<lparr>rand_calls := rand_calls w + draws_before Ns nReps k,
        clock_calls := size_start Ns nReps (clock_calls w) k,
        events := events w @ ev\<rparr>)" by blast
  let ?w = "w\<lparr>rand_calls := rand_calls w + draws_before Ns nReps k,
        clock_calls := size_start Ns nReps (clock_calls w) k,
        events := events w @ ev\<rparr>"
  obtain ev2 where r: "fold (\<lambda>repets. kdtree_demo e (Ns ! k)) [0..<nReps ! k] ((Finite 0, Finite 0), ?w) =
     ((foldl dadd (Finite 0) (map (\<lambda>r. build_interval e (rep_start (clock_calls ?w) (Ns ! k) r)) [0..<nReps ! k]),
       foldl dadd (Finite 0) (map (\<lambda>r. amortized_query_time e (rep_start (clock_calls ?w) (Ns ! k) r) (Ns ! k)) [0..<nReps ! k])),
      ?w\<lparr>rand_calls := rand_calls ?w + nReps ! k * (6 * Ns ! k),
        clock_calls := rep_start (clock_calls ?w) (Ns ! k) (nReps ! k),
        events := events ?w @ ev2\<rparr>)"
    using reps_fold [of e "Ns ! k" "nReps ! k" "Finite 0" "Finite 0" ?w] by blast
  have "fold (size_step e Ns nReps) [0..<Suc k] ((bs, qs), w) =
     ((bs @ map (\<lambda>i. build_time e (size_start Ns nReps (clock_calls w) i) (Ns ! i) (nReps ! i)) [0..<Suc k],
       qs @ map (\<lambda>i. query_time e (size_start Ns nReps (clock_calls w) i) (Ns ! i) (nReps ! i)) [0..<Suc k]),
      w\<lparr>rand_calls := rand_calls w + draws_before Ns nReps (Suc k),
        clock_calls := size_start Ns nReps (clock_calls w) (Suc k),
        events := events w @ (ev @ ev2)\<rparr>)"
    using r
    by (simp add: ih size_step_def build_time_def query_time_def dsum_def
        size_start_def draws_before_def rep_start_def)
  then show ?case by blast
qed


section \<open>Properties of the generator\<close>

lemma upt_2: "[0..<2] = [0, 1]"
  by (simp add: upt_rec numeral_2_eq_2)

lemma rval_error_rel:
  assumes "valid_format fmt" and "\<bar>u\<bar> < 2 powi max_exp fmt"
  shows "\<bar>rval fmt u - u\<bar> \<le> 2 powi (min_exp fmt - 1) + \<bar>u\<bar> * 2 powi (- int (precision fmt))"
proof -
  define q where "q = ulp_exp fmt u"
  note P = ulp_exp_props [OF assms, folded q_def]
  have half: "(2::real) powi q / 2 = 2 powi (q - 1)"
    by (simp add: power_int_diff)
  have "(2::real) powi (q - 1) \<le> 2 powi (min_exp fmt - 1) + \<bar>u\<bar> * 2 powi (- int (precision fmt))"
  proof (cases "q = min_exp fmt")
    case True
    have "0 \<le> \<bar>u\<bar> * 2 powi (- int (precision fmt))" by simp
    with True show ?thesis by simp
  next
    case False
    with P(4) have "2 powi (q + int (precision fmt) - 1) \<le> \<bar>u\<bar>" by simp
    then have "2 powi (q + int (precision fmt) - 1) * 2 powi (- int (precision fmt))
               \<le> \<bar>u\<bar> * 2 powi (- int (precision fmt))"
      by (intro mult_right_mono) simp_all
    moreover have "(2::real) powi (q + int (precision fmt) - 1) * 2 powi (- int (precision fmt))
                   = 2 powi (q - 1)"
      by (simp flip: power_int_add)
    moreover have "(0::real) \<le> 2 powi (min_exp fmt - 1)" by simp
    ultimately show ?thesis by linarith
  qed
  with rval_error [of fmt u] half show ?thesis
    by (simp add: q_def)
qed

lemma scaled_draw_bounds:
  assumes m: "representable binary32 m" and pos: "0 < m" and big: "1000 * m < 2 ^ 128"
    and k: "k < 1000"
  shows "\<exists>v. fdiv (fmul (Finite m) (float_of_nat k)) (float_of_int 1000) = Finite v
             \<and> 0 \<le> v \<and> v \<le> m
             \<and> \<bar>v - real k * (m / 1000)\<bar> \<le> m * 2 powi (- 23) + 2 powi (- 149)"
proof -
  define zz where "zz = m * real k"
  define yy where "yy = rval binary32 zz"
  have emax: "(2::real) powi max_exp binary32 = 2 ^ 128" and p: "precision binary32 = 24"
    and qmin: "min_exp binary32 = - 149"
    by (simp_all add: binary32_def)
  have kr: "real k \<le> 999" using k by simp
  have z0: "0 \<le> zz" using pos by (simp add: zz_def)
  have z1: "zz \<le> 999 * m"
    using kr pos by (simp add: zz_def mult.commute mult_right_mono)
  with big pos have zb: "\<bar>zz\<bar> < 2 powi max_exp binary32"
    using z0 by (simp add: emax)
  have low: "2 powi (- 149) \<le> m"
    using representable_pos_lower [OF valid_binary32 m pos] by (simp add: qmin)
  have e1: "\<bar>yy - zz\<bar> \<le> 2 powi (- 150) + zz * 2 powi (- 24)"
    using rval_error_rel [OF valid_binary32 zb] z0 by (simp add: yy_def p qmin)
  have y0: "0 \<le> yy" using z0 by (simp add: yy_def rval_nonneg)
  have "2 powi (- 150) + zz * 2 powi (- 24) \<le> m"
  proof -
    have "zz * 2 powi (- 24) \<le> 999 * m * 2 powi (- 24)"
      using z1 by (intro mult_right_mono) simp_all
    moreover have "(2::real) powi (- 150) \<le> m / 2"
      using low by simp
    moreover have "999 * m * 2 powi (- 24) \<le> m / 2"
      using pos by simp
    ultimately show ?thesis by linarith
  qed
  with e1 have y1: "yy \<le> zz + m" by linarith
  with z1 have y2: "yy \<le> 1000 * m" by linarith
  with big y0 have yb: "\<bar>yy\<bar> < 2 powi max_exp binary32" by (simp add: emax)
  have mul: "fmul (Finite m) (float_of_nat k) = Finite yy"
    using k fround_FiniteI [OF zb] yb
    by (simp add: fmul_def float_of_nat_small zz_def yy_def)
  have w0: "0 \<le> yy / 1000" and w1: "yy / 1000 \<le> m"
    using y0 y2 by simp_all
  from fround_below_representable [OF valid_binary32 w0 w1 m]
  obtain v where v: "fround binary32 (yy / 1000) = Finite v" "0 \<le> v" "v \<le> m" by blast
  have wb: "\<bar>yy / 1000\<bar> < 2 powi max_exp binary32"
    using fround_Finite_D(2) [OF v(1)] .
  have vr: "v = rval binary32 (yy / 1000)"
    using fround_Finite_D(1) [OF v(1)] .
  have e2: "\<bar>v - yy / 1000\<bar> \<le> 2 powi (- 150) + yy / 1000 * 2 powi (- 24)"
    using rval_error_rel [OF valid_binary32 wb] w0 by (simp add: vr p qmin)
  have "yy / 1000 * 2 powi (- 24) \<le> m * 2 powi (- 24)"
    using w1 by (intro mult_right_mono) simp_all
  with e2 have e2': "\<bar>v - yy / 1000\<bar> \<le> 2 powi (- 150) + m * 2 powi (- 24)" by linarith
  have "zz * 2 powi (- 24) \<le> 999 * m * 2 powi (- 24)"
    using z1 by (intro mult_right_mono) simp_all
  with e1 have e1': "\<bar>yy - zz\<bar> \<le> 2 powi (- 150) + 999 * m * 2 powi (- 24)" by linarith
  have "v - real k * (m / 1000) = (v - yy / 1000) + (yy - zz) / 1000"
    by (simp add: zz_def field_simps)
  then have "\<bar>v - real k * (m / 1000)\<bar> \<le> \<bar>v - yy / 1000\<bar> + \<bar>(yy - zz) / 1000\<bar>"
    by (simp only: abs_triangle_ineq)
  then have "\<bar>v - real k * (m / 1000)\<bar> \<le> \<bar>v - yy / 1000\<bar> + \<bar>yy - zz\<bar> / 1000"
    by simp
  also have "\<dots> \<le> (2 powi (- 150) + m * 2 powi (- 24))
                  + (2 powi (- 150) + 999 * m * 2 powi (- 24)) / 1000"
    using e1' e2' by (intro add_mono divide_right_mono) simp_all
  also have "\<dots> \<le> m * 2 powi (- 23) + 2 powi (- 149)"
  proof -
    define a where "a = (2::real) powi (- 150)"
    define b where "b = m * 2 powi (- 24)"
    have a0: "0 \<le> a" and b0: "0 \<le> b"
      using pos by (simp_all add: a_def b_def)
    have a2: "(2::real) powi (- 149) = 2 * a" and b2: "m * 2 powi (- 23) = 2 * b"
      and b9: "999 * m * 2 powi (- 24) = 999 * b"
      by (simp_all add: a_def b_def)
    have "(a + 999 * b) / 1000 = a / 1000 + 999 * b / 1000"
      by (simp add: add_divide_distrib)
    then have "(a + b) + (a + 999 * b) / 1000 \<le> 2 * b + 2 * a"
      using a0 b0 by linarith
    then show ?thesis
      by (simp only: a2 b2 b9 flip: a_def b_def)
  qed
  finally have acc: "\<bar>v - real k * (m / 1000)\<bar> \<le> m * 2 powi (- 23) + 2 powi (- 149)" .
  have "fdiv (fmul (Finite m) (float_of_nat k)) (float_of_int 1000) = Finite v"
    using v(1) by (simp add: mul fdiv_def)
  with v(2,3) acc show ?thesis by blast
qed

lemma fround32_321_100: "fround binary32 (321 / 100) = Finite (3365929 / 1048576)"
  using fround_eval [OF valid_binary32, of "321 / 100" "- 22" "13463716"]
  by (simp add: binary32_def rne_def)

lemma fround32_279_50: "fround binary32 (279 / 50) = Finite (2925527 / 524288)"
  using fround_eval [OF valid_binary32, of "279 / 50" "- 21" "11702108"]
  by (simp add: binary32_def rne_def)

lemma fround32_159_20: "fround binary32 (159 / 20) = Finite (8336179 / 1048576)"
  using fround_eval [OF valid_binary32, of "159 / 20" "- 21" "16672358"]
  by (simp add: binary32_def rne_def)

lemma fround32_8_25: "fround binary32 (8 / 25) = Finite (5368709 / 16777216)"
  using fround_eval [OF valid_binary32, of "8 / 25" "- 25" "10737418"]
  by (simp add: binary32_def rne_def)

lemma fround32_269_100: "fround binary32 (269 / 100) = Finite (5641339 / 2097152)"
  using fround_eval [OF valid_binary32, of "269 / 100" "- 22" "11282678"]
  by (simp add: binary32_def rne_def)

lemma fround32_253_50: "fround binary32 (253 / 50) = Finite (10611589 / 2097152)"
  using fround_eval [OF valid_binary32, of "253 / 50" "- 21" "10611589"]
  by (simp add: binary32_def rne_def)

lemma fround32_m321_1000: "fround binary32 (- (321 / 1000)) = Finite (- (10770973 / 33554432))"
  using fround_eval [OF valid_binary32, of "- (321 / 1000)" "- 25" "- 10770973"]
  by (simp add: binary32_def rne_def)

lemma fround32_m279_500: "fround binary32 (- (279 / 500)) = Finite (- (9361687 / 16777216))"
  using fround_eval [OF valid_binary32, of "- (279 / 500)" "- 24" "- 9361687"]
  by (simp add: binary32_def rne_def)

lemma fround32_m159_200: "fround binary32 (- (159 / 200)) = Finite (- (13337887 / 16777216))"
  using fround_eval [OF valid_binary32, of "- (159 / 200)" "- 24" "- 13337887"]
  by (simp add: binary32_def rne_def)

lemma fround32_sub_a: "fround binary32 (999 / 713623846352979940529142984724747568191373312) = Finite (999 / 713623846352979940529142984724747568191373312)"
  using fround_eval [OF valid_binary32, of "999 / 713623846352979940529142984724747568191373312" "- 149" "999"]
  by (simp add: binary32_def rne_def)

lemma fround32_sub_b: "fround binary32 (999 / 713623846352979940529142984724747568191373312000) = Finite (1 / 713623846352979940529142984724747568191373312)"
  using fround_eval [OF valid_binary32, of "999 / 713623846352979940529142984724747568191373312000" "- 149" "1"]
  by (simp add: binary32_def rne_def)

lemma fround32_sub_c: "fround binary32 (1 / 713623846352979940529142984724747568191373312) = Finite (1 / 713623846352979940529142984724747568191373312)"
  using fround_eval [OF valid_binary32, of "1 / 713623846352979940529142984724747568191373312" "- 149" "1"]
  by (simp add: binary32_def rne_def)

lemma fround32_fltmax: "fround binary32 340282346638528859811704183484516925440 = Finite 340282346638528859811704183484516925440"
  using fround_eval [OF valid_binary32, of "340282346638528859811704183484516925440" "104" "16777215"]
  by (simp add: binary32_def rne_def)

text \<open>
  C3 (as the code has it). For every requested size \<open>N\<close> and every positive \<^verbatim>\<open>float\<close>
  \<open>max_range\<close> whose thousandfold does not overflow, the generator returns a cloud of exactly
  \<open>N\<close> points; every coordinate is the \<^verbatim>\<open>float\<close> that \<open>max_range * k / 1000\<close> computes, with
  both operations rounded, for one \<open>k\<close> of \<open>0 .. 999\<close>; it lies in \<open>[0, max_range]\<close> (the upper
  end included) and is within \<open>max_range * 2 powi (- 23) + 2 powi (- 149)\<close> of the \<open>k\<close>-th of the
  1000 equally spaced values \<open>k * (max_range / 1000)\<close>.
\<close>

theorem generated_cloud_in_range:
  assumes "representable binary32 m" and "0 < m" and "1000 * m < 2 ^ 128"
  shows "length (pts (fst (generateRandomPointCloud e N (Finite m) w))) = N
       \<and> (\<forall>p \<in> set (pts (fst (generateRandomPointCloud e N (Finite m) w))).
            \<forall>c \<in> set (coordinates p).
              \<exists>k < 1000. \<exists>v.
                c = fdiv (fmul (Finite m) (float_of_nat k)) (float_of_int 1000)
                \<and> c = Finite v \<and> 0 \<le> v \<and> v \<le> m
                \<and> \<bar>v - real k * (m / 1000)\<bar> \<le> m * 2 powi (- 23) + 2 powi (- 149))"
proof -
  have step: "\<exists>k < 1000. \<exists>v.
                fdiv (fmul (Finite m) (float_of_nat (r mod 1000))) (float_of_int 1000)
                  = fdiv (fmul (Finite m) (float_of_nat k)) (float_of_int 1000)
                \<and> fdiv (fmul (Finite m) (float_of_nat (r mod 1000))) (float_of_int 1000) = Finite v
                \<and> 0 \<le> v \<and> v \<le> m
                \<and> \<bar>v - real k * (m / 1000)\<bar> \<le> m * 2 powi (- 23) + 2 powi (- 149)" for r :: nat
  proof -
    have k: "r mod 1000 < 1000" by simp
    from scaled_draw_bounds [OF assms k] k show ?thesis by blast
  qed
  have len: "length (pts (fst (generateRandomPointCloud e N (Finite m) w))) = N"
    by (simp add: generateRandomPointCloud_eq cloud_at_def)
  have "\<exists>k < 1000. \<exists>v.
          c = fdiv (fmul (Finite m) (float_of_nat k)) (float_of_int 1000)
          \<and> c = Finite v \<and> 0 \<le> v \<and> v \<le> m
          \<and> \<bar>v - real k * (m / 1000)\<bar> \<le> m * 2 powi (- 23) + 2 powi (- 149)"
    if "p \<in> set (pts (fst (generateRandomPointCloud e N (Finite m) w)))"
      and "c \<in> set (coordinates p)" for p c
  proof -
    from that(1) obtain i where p: "p = random_point e (Finite m) (rand_calls w + 3 * i)"
      by (auto simp add: generateRandomPointCloud_eq cloud_at_def)
    from that(2) consider
        "c = fdiv (fmul (Finite m) (float_of_nat (rand_values e (rand_calls w + 3 * i) mod 1000))) (float_of_int 1000)"
      | "c = fdiv (fmul (Finite m) (float_of_nat (rand_values e (rand_calls w + 3 * i + 1) mod 1000))) (float_of_int 1000)"
      | "c = fdiv (fmul (Finite m) (float_of_nat (rand_values e (rand_calls w + 3 * i + 2) mod 1000))) (float_of_int 1000)"
      unfolding p coordinates_def random_point_def by auto
    then show ?thesis
    proof cases
      case 1
      with step [of "rand_values e (rand_calls w + 3 * i)"] show ?thesis by metis
    next
      case 2
      with step [of "rand_values e (rand_calls w + 3 * i + 1)"] show ?thesis by metis
    next
      case 3
      with step [of "rand_values e (rand_calls w + 3 * i + 2)"] show ?thesis by metis
    qed
  qed
  with len show ?thesis by blast
qed

theorem generated_cloud_in_range_witness:
  "representable binary32 10 \<and> (0::real) < 10 \<and> (1000::real) * 10 < 2 ^ 128
   \<and> pts (fst (generateRandomPointCloud example_env 2 (Finite 10) initial_world)) =
        [\<lparr>x = Finite (3365929 / 1048576), y = Finite (2925527 / 524288), z = Finite (8336179 / 1048576)\<rparr>,
         \<lparr>x = Finite (5368709 / 16777216), y = Finite (5641339 / 2097152), z = Finite (10611589 / 2097152)\<rparr>]
   \<and> length (pts (fst (generateRandomPointCloud example_env 2 (Finite 10) initial_world))) = 2"
  using generated_cloud_in_range [of 10 example_env 2 initial_world]
  by (simp add: generateRandomPointCloud_eq cloud_at_def random_point_def example_env_def
      initial_world_def upt_2 representable_def fround32_numeral float_of_nat_small
      fmul_def fdiv_def fround32_321_100 fround32_279_50 fround32_159_20 fround32_8_25
      fround32_269_100 fround32_253_50)

text \<open>
  The claim as the specification states it fails in three ways. With the smallest positive
  \<^verbatim>\<open>float\<close> as range and a draw of remainder 999 every coordinate is the range itself, not
  below it. With the range 10 and a draw of remainder 321 the coordinate is the \<^verbatim>\<open>float\<close>
  next to 3.21, which is none of the thousand values \<open>k / 100\<close> (a hundred times it is no
  integer). With the largest \<^verbatim>\<open>float\<close> as range the product overflows and the coordinate is
  an infinity.
\<close>

theorem generated_cloud_in_range_counterexample:
  "representable binary32 (1 / 2 ^ 149)
   \<and> pts (fst (generateRandomPointCloud max_draw_env 1 (Finite (1 / 2 ^ 149)) initial_world)) =
        [\<lparr>x = Finite (1 / 2 ^ 149), y = Finite (1 / 2 ^ 149), z = Finite (1 / 2 ^ 149)\<rparr>]
   \<and> x (hd (pts (fst (generateRandomPointCloud example_env 1 (Finite 10) initial_world)))) =
        Finite (3365929 / 1048576)
   \<and> frac ((3365929 / 1048576) * 100 :: real) \<noteq> 0
   \<and> representable binary32 340282346638528859811704183484516925440
   \<and> pts (fst (generateRandomPointCloud max_draw_env 1 (Finite 340282346638528859811704183484516925440) initial_world)) =
        [\<lparr>x = PInf, y = PInf, z = PInf\<rparr>]"
  by (simp add: generateRandomPointCloud_eq cloud_at_def random_point_def example_env_def
      max_draw_env_def initial_world_def representable_def fround32_numeral float_of_nat_small
      fmul_def fdiv_def fround32_321_100 fround32_sub_a fround32_sub_b fround32_sub_c
      fround32_fltmax frac_def)
     (simp add: fround_def binary32_def overflow_def)


text \<open>
  C10. Generating a cloud of \<open>N\<close> points makes exactly \<open>3 * N\<close> calls of \<open>rand\<close> and nothing
  else; point \<open>i\<close> takes the draws number \<open>3 * i\<close>, \<open>3 * i + 1\<close> and \<open>3 * i + 2\<close> (counted
  from the first draw of the call) for x, y and z. Hence two runs whose random sources
  agree on these \<open>3 * N\<close> draws produce the same cloud, whatever else differs (the later
  draws, the clock, the calls made before).
\<close>

theorem generator_draws:
  "rand_calls (snd (generateRandomPointCloud e N max_range w)) = rand_calls w + 3 * N
   \<and> clock_calls (snd (generateRandomPointCloud e N max_range w)) = clock_calls w
   \<and> cout (snd (generateRandomPointCloud e N max_range w)) = cout w
   \<and> events (snd (generateRandomPointCloud e N max_range w)) =
         events w @ replicate (3 * N) CallRand
   \<and> pts (fst (generateRandomPointCloud e N max_range w)) =
         map (\<lambda>i. \<lparr>x = fdiv (fmul max_range
                                  (float_of_nat (rand_values e (rand_calls w + 3 * i) mod 1000)))
                                (float_of_int 1000),
                    y = fdiv (fmul max_range
                                  (float_of_nat (rand_values e (rand_calls w + 3 * i + 1) mod 1000)))
                                (float_of_int 1000),
                    z = fdiv (fmul max_range
                                  (float_of_nat (rand_values e (rand_calls w + 3 * i + 2) mod 1000)))
                                (float_of_int 1000)\<rparr>)
             [0..<N]
   \<and> ((\<forall>k < 3 * N. rand_values e (rand_calls w + k) = rand_values e' (rand_calls w' + k))
        \<longrightarrow> fst (generateRandomPointCloud e N max_range w) =
            fst (generateRandomPointCloud e' N max_range w'))"
proof -
  have same: "fst (generateRandomPointCloud e N max_range w) =
              fst (generateRandomPointCloud e' N max_range w')"
    if agree: "\<forall>k < 3 * N. rand_values e (rand_calls w + k) = rand_values e' (rand_calls w' + k)"
  proof -
    have "random_point e max_range (rand_calls w + 3 * i) =
          random_point e' max_range (rand_calls w' + 3 * i)" if "i < N" for i
    proof -
      from that have "3 * i < 3 * N" "3 * i + 1 < 3 * N" "3 * i + 2 < 3 * N" by simp_all
      with agree have
        "rand_values e (rand_calls w + 3 * i) = rand_values e' (rand_calls w' + 3 * i)"
        "rand_values e (rand_calls w + (3 * i + 1)) = rand_values e' (rand_calls w' + (3 * i + 1))"
        "rand_values e (rand_calls w + (3 * i + 2)) = rand_values e' (rand_calls w' + (3 * i + 2))"
        by blast+
      then show ?thesis by (simp add: random_point_def add.assoc)
    qed
    then show ?thesis
      by (simp add: generateRandomPointCloud_eq cloud_at_def)
  qed
  show ?thesis
    using same by (simp add: generateRandomPointCloud_eq cloud_at_def random_point_def)
qed

theorem generator_draws_witness:
  "rand_values example_env 6 \<noteq> rand_values example_env_other 6
   \<and> fst (generateRandomPointCloud example_env 2 (Finite 10) initial_world) =
       fst (generateRandomPointCloud example_env_other 2 (Finite 10) initial_world)
   \<and> rand_calls (snd (generateRandomPointCloud example_env 2 (Finite 10) initial_world)) = 6"
  using generator_draws [of example_env 2 "Finite 10" initial_world example_env_other initial_world]
  by (simp add: example_env_def example_env_other_def initial_world_def)

text \<open>
  C6 (as the code has it). The generator checks no argument: for every input, a
  \<open>max_range \<le> 0\<close> included, the call returns a cloud of \<open>N\<close> points and never fails with
  an invalid-argument condition.
\<close>

theorem generator_never_fails:
  "generate_outcome e N max_range w \<noteq> Inl InvalidArgument
   \<and> (\<exists>cloud w'. generate_outcome e N max_range w = Inr (cloud, w')
                   \<and> length (pts cloud) = N)"
  by (simp add: generate_outcome_def generateRandomPointCloud_eq cloud_at_def)

theorem generator_never_fails_witness:
  "generate_outcome example_env 2 (Finite 0) initial_world \<noteq> Inl InvalidArgument"
  using generator_never_fails [of example_env 2 "Finite 0" initial_world]
  by simp

text \<open>
  The claim as the specification states it fails: with \<open>max_range = - 1\<close> the call returns
  a cloud (whose coordinates are the negative \<^verbatim>\<open>float\<close>s next to \<open>- 0.321\<close>, \<open>- 0.558\<close> and
  \<open>- 0.795\<close>).
\<close>

theorem generator_nonpositive_range_counterexample:
  "(- 1 :: real) \<le> 0
   \<and> generate_outcome example_env 1 (Finite (- 1)) initial_world =
       Inr (\<lparr>pts = [\<lparr>x = Finite (- (10770973 / 33554432)),
                         y = Finite (- (9361687 / 16777216)),
                         z = Finite (- (13337887 / 16777216))\<rparr>]\<rparr>,
            \<lparr>rand_calls = 3, clock_calls = 0, events = [CallRand, CallRand, CallRand], cout = []\<rparr>)"
  by (simp add: generate_outcome_def generateRandomPointCloud_eq cloud_at_def random_point_def
      example_env_def initial_world_def numeral_3_eq_3 fmul_def fdiv_def float_of_nat_small
      fround32_neg_numeral fround32_m321_1000 fround32_m279_500 fround32_m159_200)


section \<open>Properties of one repetition\<close>

lemma filter_is_query_rand: "filter is_query (replicate n CallRand) = []"
  by (simp add: is_query_def)

lemma length_query_events: "length (filter is_query (query_events cloudT N)) = N"
  by (induction N) (simp_all add: query_events_def is_query_def)

lemma length_cloud_at: "length (pts (cloud_at e max_range k N)) = N"
  by (simp add: cloud_at_def)

text \<open>
  C5. One repetition at size \<open>N\<close>: the source cloud is generated first and the target
  cloud second, each of \<open>N\<close> points, the target from fresh draws (the \<open>3 * N\<close> draws that
  follow the source's); only then is the clock read for the build. The index is built
  over the source cloud. Then exactly \<open>N\<close> searches are issued, the \<open>i\<close>-th for the
  \<open>i\<close>-th target point with one result requested, each between two clock reads of its
  own; the differences of these reads are summed into the repetition's query total, which
  is converted to seconds, divided by \<open>N\<close> and added to the query timer.
\<close>

theorem repetition_trace:
  "(let (cloudS, w1) = generateRandomPointCloud e N (float_of_int 10) w;
        (cloudT, w2) = generateRandomPointCloud e N (float_of_int 10) w1;
        c = clock_calls w;
        ((buildTimer1, queryTimer1), w3) = kdtree_demo e N ((buildTimer, queryTimer), w)
    in length (pts cloudS) = N \<and> length (pts cloudT) = N
       \<and> cloudS = cloud_at e (float_of_int 10) (rand_calls w) N
       \<and> cloudT = cloud_at e (float_of_int 10) (rand_calls w + 3 * N) N
       \<and> events w3 =
             events w @ replicate (3 * N) CallRand @ replicate (3 * N) CallRand
             @ [CallClock, NewIndex 3 cloudS 10, BuildIndex, CallClock]
             @ concat (map (\<lambda>i. [CallClock, FindNeighbors (coordinates (pts cloudT ! i)) 1 10, CallClock])
                         [0..<N])
       \<and> length (filter is_query (events w3)) = length (filter is_query (events w)) + N
       \<and> buildTimer1 =
             dadd buildTimer
               (ddiv (double_of_int (clock_values e (c + 1) - clock_values e c))
                     (double_of_int (CLOCKS_PER_SEC e)))
       \<and> queryTimer1 =
             dadd queryTimer
               (ddiv (ddiv (foldl dadd (Finite 0)
                              (map (\<lambda>j. double_of_int (clock_values e (c + 2 + 2 * j + 1)
                                                        - clock_values e (c + 2 + 2 * j)))
                                   [0..<N]))
                           (double_of_int (CLOCKS_PER_SEC e)))
                     (double_of_size N))
       \<and> rand_calls w3 = rand_calls w + 6 * N
       \<and> clock_calls w3 = c + 2 + 2 * N
       \<and> cout w3 = cout w)"
proof -
  have rep: "replicate (6 * N) CallRand = replicate (3 * N) CallRand @ replicate (3 * N) CallRand"
    by (simp add: replicate_add [symmetric])
  have q: "query_events cloudT N =
           concat (map (\<lambda>i. [CallClock, FindNeighbors (coordinates (pts cloudT ! i)) 1 10, CallClock])
                       [0..<N])" for cloudT :: PointCloud
    by (simp add: query_events_def coordinates_def)
  have n: "length (filter is_query
             (concat (map (\<lambda>i. [CallClock, FindNeighbors (coordinates (pts cloudT ! i)) (Suc 0) 10, CallClock])
                       [0..<N]))) = N" for cloudT :: PointCloud
    using length_query_events [of cloudT N] by (simp add: q)
  have qi: "query_interval e k =
            (\<lambda>j. double_of_int (clock_values e (k + 2 * j + 1) - clock_values e (k + 2 * j)))" for k
    by (rule ext) (simp add: query_interval_def)
  show ?thesis
    by (simp add: generateRandomPointCloud_eq kdtree_demo_eq length_cloud_at rep q n
        filter_is_query_rand is_query_def build_interval_def amortized_query_time_def
        qi dsum_def Let_def)
qed

theorem repetition_trace_witness:
  "events (snd (kdtree_demo example_env 1 ((Finite 0, Finite 0), initial_world))) =
     [CallRand, CallRand, CallRand, CallRand, CallRand, CallRand,
      CallClock,
      NewIndex 3 \<lparr>pts = [\<lparr>x = Finite (3365929 / 1048576), y = Finite (2925527 / 524288),
                           z = Finite (8336179 / 1048576)\<rparr>]\<rparr> 10,
      BuildIndex,
      CallClock,
      CallClock,
      FindNeighbors [Finite (5368709 / 16777216), Finite (5641339 / 2097152),
                     Finite (10611589 / 2097152)] 1 10,
      CallClock]
   \<and> fst (kdtree_demo example_env 1 ((Finite 0, Finite 0), initial_world)) =
       (Finite 1, Finite 5)"
  using repetition_trace [of example_env 1 initial_world "Finite 0" "Finite 0"]
  by (simp add: generateRandomPointCloud_eq cloud_at_def random_point_def example_env_def
      initial_world_def coordinates_def numeral_3_eq_3 double_of_int_def double_of_size_def
      dadd_def ddiv_def fround64_numeral fmul_def fdiv_def float_of_nat_small fround32_numeral
      fround32_321_100 fround32_279_50 fround32_159_20 fround32_8_25 fround32_269_100
      fround32_253_50
      split: prod.splits)

section \<open>The exit status\<close>

text \<open>
  C8. \<open>main\<close> has one \<^verbatim>\<open>return\<close>, with status 0, after the report: whenever the sweep runs
  to its end, over the constants of the source or over any other sizes and repetition
  counts, the exit status is 0.
\<close>

theorem main_exit_status:
  "fst (main e w) = 0 \<and> fst (main_with e plotCount Ns nReps w) = 0"
  by (simp add: main_def main_with_def Let_def split: prod.splits)


section \<open>Properties of the report\<close>

lemma text_lines_from_line:
  "CHR 0x0A \<notin> set l \<Longrightarrow>
   text_lines_from cur (l @ CHR 0x0A # rest) = (cur @ l) # text_lines_from [] rest"
  by (induction l arbitrary: cur) auto

lemma tokens_from_token:
  "CHR '' '' \<notin> set t \<Longrightarrow> cur @ t \<noteq> [] \<Longrightarrow>
   tokens_from cur (t @ CHR '' '' # rest) = (cur @ t) # tokens_from [] rest"
  by (induction t arbitrary: cur) auto

lemma tokens_printed:
  assumes "\<forall>t \<in> set ts. t \<noteq> [] \<and> CHR '' '' \<notin> set t"
  shows "tokens (concat (map (\<lambda>t. t @ '' '') ts)) = ts"
  using assms
proof (induction ts)
  case Nil
  then show ?case by (simp add: tokens_def)
next
  case (Cons t ts)
  then have "tokens_from [] (t @ CHR '' '' # concat (map (\<lambda>t. t @ '' '') ts))
             = ([] @ t) # tokens_from [] (concat (map (\<lambda>t. t @ '' '') ts))"
    by (intro tokens_from_token) simp_all
  with Cons show ?case by (simp add: tokens_def)
qed

lemma print_values_fold:
  "fold (\<lambda>i w. w\<lparr>cout := cout w @ show_double e (vs ! i) @ '' ''\<rparr>) [0..<k] w =
     w\<lparr>cout := cout w @ concat (map (\<lambda>i. show_double e (vs ! i) @ '' '') [0..<k])\<rparr>"
  by (induction k) simp_all

lemma print_values_eq:
  "print_values e vs w = w\<lparr>cout := cout w @ printed_line e vs\<rparr>"
proof -
  have "map (\<lambda>i. show_double e (vs ! i) @ '' '') [0..<length vs] =
        map (\<lambda>v. show_double e v @ '' '') vs"
    by (rule nth_equalityI) simp_all
  then show ?thesis
    by (simp add: print_values_def print_values_fold printed_line_def)
qed

lemma report_eq:
  "report e buildTime queryTime w =
     w\<lparr>cout := cout w @ printed_line e buildTime @ [CHR 0x0A]
                       @ printed_line e queryTime @ [CHR 0x0A]\<rparr>"
  by (simp add: report_def print_values_eq print_newline_def)

lemma measure_sizes_eq:
  "\<exists>ev. measure_sizes e plotCount Ns nReps w =
     ((map (\<lambda>i. build_time e (size_start Ns nReps (clock_calls w) i) (Ns ! i) (nReps ! i)) [0..<plotCount],
       map (\<lambda>i. query_time e (size_start Ns nReps (clock_calls w) i) (Ns ! i) (nReps ! i)) [0..<plotCount]),
      w\<lparr>rand_calls := rand_calls w + draws_before Ns nReps plotCount,
        clock_calls := size_start Ns nReps (clock_calls w) plotCount,
        events := events w @ ev\<rparr>)"
  using sizes_fold [of e Ns nReps plotCount "[]" "[]" w]
  by (simp add: measure_sizes_def)

lemma measure_sizes_times:
  "fst (measure_sizes e plotCount Ns nReps w) =
     (map (\<lambda>i. build_time e (size_start Ns nReps (clock_calls w) i) (Ns ! i) (nReps ! i)) [0..<plotCount],
      map (\<lambda>i. query_time e (size_start Ns nReps (clock_calls w) i) (Ns ! i) (nReps ! i)) [0..<plotCount])"
  using measure_sizes_eq [of e plotCount Ns nReps w] by auto

lemma example_show_token:
  "example_show v \<noteq> [] \<and> CHR '' '' \<notin> set (example_show v) \<and> CHR 0x0A \<notin> set (example_show v)"
  by (cases v) (simp_all add: example_show_def)

lemma example_times:
  "fst (measure_sizes example_env 2 example_Ns example_nReps initial_world) =
     ([Finite 1, Finite 9], [NaN, Finite 13])"
  by (simp add: example_Ns_def example_nReps_def measure_sizes_times upt_2 build_time_def
      query_time_def size_start_def rep_start_def dsum_def build_interval_def
      amortized_query_time_def query_interval_def double_of_int_def double_of_size_def
      dadd_def ddiv_def fround64_numeral example_env_def initial_world_def)

lemma printed_line_no_newline:
  assumes "\<forall>v. CHR 0x0A \<notin> set (show_double e v)"
  shows "CHR 0x0A \<notin> set (printed_line e vs)"
  using assms by (induction vs) (simp_all add: printed_line_def)

lemma tokens_printed_line:
  assumes "\<forall>v. show_double e v \<noteq> [] \<and> CHR '' '' \<notin> set (show_double e v)"
  shows "tokens (printed_line e vs) = map (show_double e) vs"
proof -
  have "tokens (concat (map (\<lambda>t. t @ '' '') (map (show_double e) vs))) = map (show_double e) vs"
    using assms by (intro tokens_printed) simp
  then show ?thesis by (simp add: printed_line_def comp_def)
qed

lemma text_lines_two:
  assumes "CHR 0x0A \<notin> set l1" and "CHR 0x0A \<notin> set l2"
  shows "text_lines (l1 @ [CHR 0x0A] @ l2 @ [CHR 0x0A]) = [l1, l2]"
  using assms text_lines_from_line [of l1 "[]" "l2 @ [CHR 0x0A]"]
        text_lines_from_line [of l2 "[]" "[]"]
  by (simp add: text_lines_def)

text \<open>
  C2. For every run over a valid configuration (as many repetition counts as sizes), the
  program writes exactly two lines, each ended by a line terminator, and nothing else:
  the first holds the build times in order, the second the query times in the same
  order, each value followed by one space. Split at spaces, each line has exactly as many
  tokens as there are sizes, and the tokens are the printed values; with no size both
  lines are empty. (What \<^verbatim>\<open>operator<<\<close> writes for a \<^verbatim>\<open>double\<close> is a parameter: a non-empty
  text without space or line terminator.)
\<close>

theorem report_two_lines:
  assumes "\<forall>v. show_double e v \<noteq> [] \<and> CHR '' '' \<notin> set (show_double e v)
               \<and> CHR 0x0A \<notin> set (show_double e v)"
    and "cout w = []"
    and "length Ns = plotCount" and "length nReps = plotCount"
  shows "(let ((buildTime, queryTime), w1) = measure_sizes e plotCount Ns nReps w;
              out = cout (snd (main_with e plotCount Ns nReps w));
              line1 = printed_line e buildTime;
              line2 = printed_line e queryTime
          in length buildTime = length Ns \<and> length queryTime = length Ns
             \<and> out = line1 @ [CHR 0x0A] @ line2 @ [CHR 0x0A]
             \<and> text_lines out = [line1, line2]
             \<and> tokens line1 = map (show_double e) buildTime
             \<and> tokens line2 = map (show_double e) queryTime
             \<and> length (tokens line1) = length Ns
             \<and> length (tokens line2) = length Ns
             \<and> line1 = concat (map (\<lambda>t. t @ '' '') (tokens line1))
             \<and> line2 = concat (map (\<lambda>t. t @ '' '') (tokens line2))
             \<and> (length Ns = 0 \<longrightarrow> out = [CHR 0x0A, CHR 0x0A]))"
proof -
  obtain bt qt w1 where m: "measure_sizes e plotCount Ns nReps w = ((bt, qt), w1)"
    by (metis prod.collapse)
  from measure_sizes_eq [of e plotCount Ns nReps w] m
  have len: "length bt = plotCount" "length qt = plotCount" and c1: "cout w1 = cout w"
    by auto
  have out: "cout (snd (main_with e plotCount Ns nReps w)) =
             printed_line e bt @ [CHR 0x0A] @ printed_line e qt @ [CHR 0x0A]"
    using assms(2) c1 by (simp add: main_with_def m report_eq)
  have nl: "CHR 0x0A \<notin> set (printed_line e vs)" for vs
    using assms(1) by (intro printed_line_no_newline) simp
  have tk: "tokens (printed_line e vs) = map (show_double e) vs" for vs
    using assms(1) by (intro tokens_printed_line) simp
  have ln: "text_lines (printed_line e bt @ [CHR 0x0A] @ printed_line e qt @ [CHR 0x0A]) =
            [printed_line e bt, printed_line e qt]"
    by (rule text_lines_two) (rule nl)+
  have again: "printed_line e vs = concat (map (\<lambda>t. t @ '' '') (tokens (printed_line e vs)))" for vs
    by (simp add: tk) (simp add: printed_line_def comp_def)
  have empty: "plotCount = 0 \<Longrightarrow> printed_line e bt = [] \<and> printed_line e qt = []"
    using len by (simp add: printed_line_def)
  show ?thesis
    unfolding m Let_def prod.case out ln
    using len tk again empty assms(3) by simp
qed

theorem report_two_lines_witness:
  "text_lines (cout (snd (main_with example_env 2 example_Ns example_nReps initial_world))) =
     [''1e-06 1e-06 '', ''nan 1e-06 '']
   \<and> tokens ''nan 1e-06 '' = [''nan'', ''1e-06'']"
proof -
  have fmt: "\<forall>v. show_double example_env v \<noteq> [] \<and> CHR '' '' \<notin> set (show_double example_env v)
               \<and> CHR 0x0A \<notin> set (show_double example_env v)"
    using example_show_token by (simp add: example_env_def)
  have start: "cout initial_world = []"
    by (simp add: initial_world_def)
  have shown: "show_double example_env = example_show"
    by (simp add: example_env_def)
  have l1: "length example_Ns = 2" and l2: "length example_nReps = 2"
    by (simp_all add: example_Ns_def example_nReps_def)
  note r = report_two_lines [OF fmt start l1 l2, unfolded Let_def case_prod_beta]
  have "text_lines (cout (snd (main_with example_env 2 example_Ns example_nReps initial_world))) =
          [printed_line example_env
             (fst (fst (measure_sizes example_env 2 example_Ns example_nReps initial_world))),
           printed_line example_env
             (snd (fst (measure_sizes example_env 2 example_Ns example_nReps initial_world)))]"
    by (rule r [THEN conjunct2, THEN conjunct2, THEN conjunct2, THEN conjunct1])
  then show ?thesis
    by (simp add: example_times printed_line_def shown example_show_def tokens_def)
qed


section \<open>Properties of the averaged times\<close>

lemma dadd_NaN_right: "dadd v NaN = NaN"
  by (cases v) (simp_all add: dadd_def)

lemma dsum_all_NaN: "dsum (map (\<lambda>r. NaN) [0..<R]) = (if R = 0 then Finite 0 else NaN)"
  by (induction R) (simp_all add: dsum_def dadd_NaN_right)

lemma amortized_query_time_zero: "amortized_query_time e c 0 = NaN"
  by (cases "double_of_int (CLOCKS_PER_SEC e)")
     (simp_all add: amortized_query_time_def dsum_def ddiv_def)

lemma query_time_zero: "query_time e c 0 R = NaN"
  by (simp add: query_time_def amortized_query_time_zero dsum_all_NaN ddiv_def)


lemma is_value_fround: "valid_format fmt \<Longrightarrow> is_value fmt (fround fmt v)"
  by (cases "fround fmt v") (simp_all add: is_value_def fround_idem)


lemma is_value_fp_add: "valid_format fmt \<Longrightarrow> is_value fmt (fp_add fmt a b)"
  by (cases a; cases b) (simp_all add: is_value_fround, simp_all add: is_value_def)






















text \<open>
  C1 (as the code has it). For every size index \<open>i\<close> with \<open>Ns ! i = 0\<close>: a repetition
  draws nothing, reads the clock twice around the build of the index over the empty cloud
  and issues no search; the division of the accumulated query time, which is 0, by the
  size is not skipped: \<open>0 / 0\<close> is evaluated and yields NaN, so the query timer and the
  reported query time of that size are NaN, not 0.
\<close>

theorem zero_size_query_time:
  assumes "i < plotCount" and "plotCount \<le> length Ns" and "plotCount \<le> length nReps"
    and "Ns ! i = 0"
  shows "snd (fst (measure_sizes e plotCount Ns nReps w)) ! i = NaN
       \<and> kdtree_demo e 0 ((buildTimer, queryTimer), w) =
           ((dadd buildTimer
               (ddiv (double_of_int (clock_values e (clock_calls w + 1) - clock_values e (clock_calls w)))
                     (double_of_int (CLOCKS_PER_SEC e))),
             NaN),
            w\<lparr>clock_calls := clock_calls w + 2,
              events := events w @ [CallClock, NewIndex 3 \<lparr>pts = []\<rparr> 10, BuildIndex, CallClock]\<rparr>)
       \<and> ddiv (Finite 0) (double_of_size 0) = NaN"
proof -
  have "snd (fst (measure_sizes e plotCount Ns nReps w)) ! i = NaN"
    using assms(1,4) by (simp add: measure_sizes_times query_time_zero)
  moreover have "kdtree_demo e 0 ((buildTimer, queryTimer), w) =
           ((dadd buildTimer
               (ddiv (double_of_int (clock_values e (clock_calls w + 1) - clock_values e (clock_calls w)))
                     (double_of_int (CLOCKS_PER_SEC e))),
             NaN),
            w\<lparr>clock_calls := clock_calls w + 2,
              events := events w @ [CallClock, NewIndex 3 \<lparr>pts = []\<rparr> 10, BuildIndex, CallClock]\<rparr>)"
    by (simp add: kdtree_demo_eq amortized_query_time_zero dadd_NaN_right build_interval_def
        cloud_at_def query_events_def)
  moreover have "ddiv (Finite 0) (double_of_size 0) = NaN"
    by (simp add: ddiv_def)
  ultimately show ?thesis by blast
qed

theorem zero_size_query_time_witness:
  "(0::nat) < 1 \<and> 1 \<le> length [0::nat] \<and> 1 \<le> length [3::nat] \<and> [0::nat] ! 0 = 0
   \<and> snd (fst (measure_sizes (stub_env 0) 1 [0] [3] initial_world)) ! 0 = NaN"
  using zero_size_query_time [of 0 1 "[0]" "[3]" "stub_env 0" initial_world]
  by simp

text \<open>
  The claim as the specification states it fails on the specification's own scenario
  shape (a size 0 measured once, then a positive size): the query time reported for the
  size 0 is NaN.
\<close>

theorem zero_size_query_time_counterexample:
  "example_Ns ! 0 = 0
   \<and> snd (fst (measure_sizes example_env 2 example_Ns example_nReps initial_world)) ! 0 = NaN
   \<and> snd (fst (measure_sizes example_env 2 example_Ns example_nReps initial_world)) ! 0 \<noteq> Finite 0"
  by (simp add: example_times) (simp add: example_Ns_def)



















end
